theory Spec2Isabelle
  imports Complex_Main
begin

section \<open>Python text and the library functions the parser relies on\<close>

text \<open>
  A Python \<open>str\<close> is a sequence of Unicode code points, so a text is a list of natural
  numbers and \<open>length\<close> counts code points. ASCII literals are written \<open>u ''...''\<close>.
\<close>

type_synonym ustr = "nat list"

definition u :: "string \<Rightarrow> ustr" where
  "u = map of_char"

text \<open>
  The code points that the parser tests, as they appear below: 9 tab, 10 newline, 32 space,
  34 double quote, 35 \<open>#\<close>, 36 \<open>$\<close>, 37 \<open>%\<close>, 40 and 41 parentheses, 43 \<open>+\<close>, 44 comma,
  45 \<open>-\<close>, 46 full stop, 47 \<open>/\<close>, 48 to 57 the digits, 58 colon, 64 \<open>@\<close>, 65 to 90 the
  capital letters (66 B, 67 C, 69 E, 70 F, 77 M, 78 N, 82 R, 84 T, 85 U, 88 X, 90 Z),
  91 \<open>[\<close>, 92 backslash, 95 underscore, 96 backtick, 97 to 122 the small letters (98 b,
  101 e, 102 f, 110 n, 114 r, 116 t, 117 u, 120 x), 123 \<open>{\<close>, 126 \<open>~\<close>.
\<close>

text \<open>
  What the parser takes from outside \<open>fast_zincparser.py\<close> is collected in one record:
  the Unicode character database (only consulted for code points above ASCII) and the
  success conditions of the library calls whose results are kept symbolically
  (\<open>Version\<close>, \<open>iso8601.parse_date\<close>, \<open>timezone\<close>/\<open>astimezone\<close>, \<open>strptime\<close>).
\<close>

record pyenv =
  uc_isspace :: "nat \<Rightarrow> bool"
  uc_isword :: "nat \<Rightarrow> bool"
  uc_decimal :: "nat \<Rightarrow> nat option"
  uc_isdigit :: "nat \<Rightarrow> bool"
  uc_isupper :: "nat \<Rightarrow> bool"
  uc_upper :: "nat \<Rightarrow> nat list"
  version_ok :: "ustr \<Rightarrow> bool"
  iso8601_ok :: "ustr \<Rightarrow> bool"
  iso8601_has_tz :: "ustr \<Rightarrow> bool"
  astimezone_ok :: "ustr \<Rightarrow> ustr \<Rightarrow> bool"
  strptime_ok :: "string \<Rightarrow> ustr \<Rightarrow> bool"

text \<open>An environment in which no code point above ASCII belongs to any class.\<close>

definition ascii_env :: pyenv where
  "ascii_env = \<lparr> uc_isspace = (\<lambda>_. False), uc_isword = (\<lambda>_. False),
     uc_decimal = (\<lambda>_. None), uc_isdigit = (\<lambda>_. False), uc_isupper = (\<lambda>_. False),
     uc_upper = (\<lambda>c. [c]), version_ok = (\<lambda>_. True), iso8601_ok = (\<lambda>_. False),
     iso8601_has_tz = (\<lambda>_. False), astimezone_ok = (\<lambda>_ _. False),
     strptime_ok = (\<lambda>_ _. False) \<rparr>"

datatype error = ValueError string | TypeError string | IndexError string | LibraryError string

subsection \<open>Character classes\<close>

definition ascii_digit :: "nat \<Rightarrow> bool" where
  "ascii_digit c \<longleftrightarrow> 48 \<le> c \<and> c \<le> 57"

definition ascii_lower :: "nat \<Rightarrow> bool" where
  "ascii_lower c \<longleftrightarrow> 97 \<le> c \<and> c \<le> 122"

definition ascii_upper :: "nat \<Rightarrow> bool" where
  "ascii_upper c \<longleftrightarrow> 65 \<le> c \<and> c \<le> 90"

definition ascii_hex :: "nat \<Rightarrow> bool" where
  "ascii_hex c \<longleftrightarrow> ascii_digit c \<or> (97 \<le> c \<and> c \<le> 102) \<or> (65 \<le> c \<and> c \<le> 70)"

text \<open>\<open>str.isspace\<close>, which \<open>str.strip\<close> and the pattern \<open>\s\<close> share.\<close>

definition is_space :: "pyenv \<Rightarrow> nat \<Rightarrow> bool" where
  "is_space U c \<longleftrightarrow>
     (if c < 128 then c = 32 \<or> (9 \<le> c \<and> c \<le> 13) \<or> (28 \<le> c \<and> c \<le> 31)
      else uc_isspace U c)"

text \<open>The pattern \<open>\w\<close>.\<close>

definition is_word :: "pyenv \<Rightarrow> nat \<Rightarrow> bool" where
  "is_word U c \<longleftrightarrow>
     (if c < 128 then ascii_digit c \<or> ascii_lower c \<or> ascii_upper c \<or> c = 95
      else uc_isword U c)"

text \<open>The pattern \<open>\d\<close>.\<close>

definition is_decimal :: "pyenv \<Rightarrow> nat \<Rightarrow> bool" where
  "is_decimal U c \<longleftrightarrow> (if c < 128 then ascii_digit c else uc_decimal U c \<noteq> None)"

text \<open>\<open>str.isdigit\<close> and \<open>str.isupper\<close> on one character.\<close>

definition is_digit :: "pyenv \<Rightarrow> nat \<Rightarrow> bool" where
  "is_digit U c \<longleftrightarrow> (if c < 128 then ascii_digit c else uc_isdigit U c)"

definition is_upper :: "pyenv \<Rightarrow> nat \<Rightarrow> bool" where
  "is_upper U c \<longleftrightarrow> (if c < 128 then ascii_upper c else uc_isupper U c)"

subsection \<open>String methods\<close>

definition py_strip :: "pyenv \<Rightarrow> ustr \<Rightarrow> ustr" where
  "py_strip U s = rev (dropWhile (is_space U) (rev (dropWhile (is_space U) s)))"

definition py_upper :: "pyenv \<Rightarrow> ustr \<Rightarrow> ustr" where
  "py_upper U s =
     concat (map (\<lambda>c. if c < 128 then [if ascii_lower c then c - 32 else c] else uc_upper U c) s)"

fun startswith :: "ustr \<Rightarrow> ustr \<Rightarrow> bool" where
  "startswith s [] = True"
| "startswith [] (p # ps) = False"
| "startswith (x # xs) (p # ps) = (x = p \<and> startswith xs ps)"

definition endswith :: "ustr \<Rightarrow> ustr \<Rightarrow> bool" where
  "endswith s p = startswith (rev s) (rev p)"

text \<open>\<open>p in s\<close> for a text \<open>p\<close>.\<close>

fun py_in :: "ustr \<Rightarrow> ustr \<Rightarrow> bool" where
  "py_in p [] = (p = [])"
| "py_in p (x # xs) = (startswith (x # xs) p \<or> py_in p xs)"

text \<open>\<open>s.split(c)\<close> and \<open>s.split(c, n)\<close> for a one-character separator.\<close>

fun py_split :: "nat \<Rightarrow> ustr \<Rightarrow> ustr list" where
  "py_split c [] = [[]]"
| "py_split c (x # xs) =
     (if x = c then [] # py_split c xs
      else (case py_split c xs of w # ws \<Rightarrow> (x # w) # ws | [] \<Rightarrow> [[x]]))"

fun py_split_max :: "nat \<Rightarrow> nat \<Rightarrow> ustr \<Rightarrow> ustr list" where
  "py_split_max c n [] = [[]]"
| "py_split_max c n (x # xs) =
     (if n = 0 then [x # xs]
      else if x = c then [] # py_split_max c (n - 1) xs
      else (case py_split_max c n xs of w # ws \<Rightarrow> (x # w) # ws | [] \<Rightarrow> [[x]]))"

subsection \<open>\<open>int(s, 16)\<close> and \<open>chr\<close>\<close>

text \<open>
  CPython first maps Unicode spaces and decimal digits to ASCII (anything else above
  ASCII becomes \<open>?\<close>), then skips ASCII white space, an optional sign, an optional
  \<open>0x\<close> prefix (one underscore may follow it), and reads hexadecimal digits with single
  underscores between them; only white space may follow.
\<close>

definition to_ascii :: "pyenv \<Rightarrow> ustr \<Rightarrow> ustr" where
  "to_ascii U s =
     map (\<lambda>c. if c < 127 then c else if uc_isspace U c then 32
              else (case uc_decimal U c of Some d \<Rightarrow> 48 + d | None \<Rightarrow> 63)) s"

definition c_isspace :: "nat \<Rightarrow> bool" where
  "c_isspace c \<longleftrightarrow> c = 32 \<or> (9 \<le> c \<and> c \<le> 13)"

definition digit_value :: "nat \<Rightarrow> nat" where
  "digit_value c =
     (if ascii_digit c then c - 48 else if ascii_lower c then c - 87
      else if ascii_upper c then c - 55 else 37)"

fun underscores_ok :: "ustr \<Rightarrow> bool" where
  "underscores_ok [] = True"
| "underscores_ok [x] = (x \<noteq> 95)"
| "underscores_ok (x # y # zs) = (\<not> (x = 95 \<and> y = 95) \<and> underscores_ok (y # zs))"

definition hex_value :: "ustr \<Rightarrow> nat" where
  "hex_value ds = foldl (\<lambda>acc c. 16 * acc + digit_value c) 0 ds"

definition strip_sign :: "ustr \<Rightarrow> int \<times> ustr" where
  "strip_sign s = (case s of [] \<Rightarrow> (1, [])
     | c # r \<Rightarrow> if c = 43 then (1, r) else if c = 45 then (- 1, r) else (1, c # r))"

definition strip_0x :: "ustr \<Rightarrow> ustr" where
  "strip_0x s = (case s of
       c # x # r \<Rightarrow> if c = 48 \<and> (x = 120 \<or> x = 88)
                   then (case r of [] \<Rightarrow> [] | y # r' \<Rightarrow> if y = 95 then r' else y # r')
                   else s
     | _ \<Rightarrow> s)"

definition py_int16 :: "pyenv \<Rightarrow> ustr \<Rightarrow> error + int" where
  "py_int16 U s =
     (case strip_sign (dropWhile c_isspace (to_ascii U s)) of (sign, body) \<Rightarrow>
       (case strip_0x body of digits_on \<Rightarrow>
         (case (takeWhile (\<lambda>c. digit_value c < 16 \<or> c = 95) digits_on,
                dropWhile (\<lambda>c. digit_value c < 16 \<or> c = 95) digits_on) of (ds, rest) \<Rightarrow>
            if startswith digits_on [95] \<or> \<not> underscores_ok ds \<or> ds = []
               \<or> dropWhile c_isspace rest \<noteq> []
            then Inl (ValueError ''invalid literal for int() with base 16'')
            else Inr (sign * int (hex_value (filter (\<lambda>c. c \<noteq> 95) ds))))))"

definition py_chr :: "int \<Rightarrow> error + nat" where
  "py_chr n = (if 0 \<le> n \<and> n \<le> 1114111 then Inr (nat n)
               else Inl (ValueError ''chr() arg not in range(0x110000)''))"

section \<open>Escape decoder\<close>

text \<open>
  The \<open>while\<close> loop of \<open>_unescape\<close>. Every test of the loop looks at the text from
  index \<open>i\<close> on (\<open>i + 1 < len(s)\<close> says that two characters are left, \<open>i + 5 < len(s)\<close>
  that six are), so the loop state is the remaining text and the \<open>result\<close> list.
\<close>

fun unescape_loop :: "pyenv \<Rightarrow> bool \<Rightarrow> ustr \<Rightarrow> ustr \<Rightarrow> error + ustr" where
  "unescape_loop U uri [] result = Inr result"
| "unescape_loop U uri [c] result = Inr (result @ [c])"
| "unescape_loop U uri (c # esc_c # rest) result =
     (if c = 92 then
        if (esc_c = 117 \<or> esc_c = 85) \<and> 4 \<le> length rest then
          (case py_int16 U (take 4 rest) of
             Inl e \<Rightarrow> Inl e
           | Inr n \<Rightarrow> (case py_chr n of
               Inl e \<Rightarrow> Inl e
             | Inr cp \<Rightarrow> unescape_loop U uri (drop 4 rest) (result @ [cp])))
        else if esc_c = 98 then unescape_loop U uri rest (result @ [8])
        else if esc_c = 102 then unescape_loop U uri rest (result @ [12])
        else if esc_c = 110 then unescape_loop U uri rest (result @ [10])
        else if esc_c = 114 then unescape_loop U uri rest (result @ [13])
        else if esc_c = 116 then unescape_loop U uri rest (result @ [9])
        else unescape_loop U uri rest
               (result @ (if uri \<and> esc_c = 35 then [92] else []) @ [esc_c])
      else unescape_loop U uri (esc_c # rest) (result @ [c]))"

definition unescape :: "pyenv \<Rightarrow> ustr \<Rightarrow> bool \<Rightarrow> error + ustr" where
  "unescape U s uri = (if 92 \<notin> set s then Inr s else unescape_loop U uri s [])"

text \<open>A decoded text \<open>xs\<close> followed by the decoding of the rest, or the rest's error.\<close>

definition prepend :: "ustr \<Rightarrow> error + ustr \<Rightarrow> error + ustr" where
  "prepend xs r = (case r of Inl e \<Rightarrow> Inl e | Inr t \<Rightarrow> Inr (xs @ t))"

section \<open>Regular expressions\<close>

text \<open>
  The patterns of the module are terms of the type \<open>rx\<close>; \<open>rxm\<close> is a backtracking
  matcher in the manner of Python's \<open>re\<close>: it returns every way the pattern can match a
  prefix of the text, in the order in which a backtracking engine tries them (greedy
  repetition first), so the head of the list is the match Python reports. A match state
  is the list of closed groups (latest first), whether the position is the start of the
  text, and the text still to read. No repetition of this module has a body that can
  match the empty text, so the guard in the \<open>Star\<close> equation never cuts a match off.
\<close>

datatype rx = Lit nat | Cls "nat \<Rightarrow> bool" | Eps | Bol | Eol
  | Seq rx rx | Alt rx rx | Opt rx | Star rx | Grp nat rx

type_synonym mstate = "(nat \<times> ustr) list \<times> bool \<times> ustr"

fun rxm :: "rx \<Rightarrow> mstate \<Rightarrow> mstate list" where
  "rxm (Lit c) (g, b, s) =
     (case s of [] \<Rightarrow> [] | x # xs \<Rightarrow> if x = c then [(g, False, xs)] else [])"
| "rxm (Cls p) (g, b, s) =
     (case s of [] \<Rightarrow> [] | x # xs \<Rightarrow> if p x then [(g, False, xs)] else [])"
| "rxm Eps st = [st]"
| "rxm Bol (g, b, s) = (if b then [(g, b, s)] else [])"
| "rxm Eol (g, b, s) = (if s = [] \<or> s = [10] then [(g, b, s)] else [])"
| "rxm (Seq r1 r2) st = concat (map (rxm r2) (rxm r1 st))"
| "rxm (Alt r1 r2) st = rxm r1 st @ rxm r2 st"
| "rxm (Opt r) st = rxm r st @ [st]"
| "rxm (Star r) (g, b, s) =
     concat (map (\<lambda>(g', b', s'). if length s' < length s then rxm (Star r) (g', b', s') else [])
                 (rxm r (g, b, s))) @ [(g, b, s)]"
| "rxm (Grp k r) (g, b, s) =
     map (\<lambda>(g', b', s'). ((k, take (length s - length s') s) # g', b', s')) (rxm r (g, b, s))"

definition seqs :: "rx list \<Rightarrow> rx" where
  "seqs rs = foldr Seq rs Eps"

definition lit :: "string \<Rightarrow> rx" where
  "lit s = seqs (map (\<lambda>c. Lit (of_char c)) s)"

definition plus :: "rx \<Rightarrow> rx" where
  "plus r = Seq r (Star r)"

definition rep2 :: "rx \<Rightarrow> rx" where
  "rep2 r = Seq r r"

definition rep4 :: "rx \<Rightarrow> rx" where
  "rep4 r = Seq r (Seq r (Seq r r))"

text \<open>A match object: the closed groups (latest first) and \<open>m.end()\<close>.\<close>

type_synonym rmatch = "(nat \<times> ustr) list \<times> nat"

definition re_match :: "rx \<Rightarrow> ustr \<Rightarrow> rmatch option" where
  "re_match r s = (case rxm r ([], True, s) of [] \<Rightarrow> None
                   | (g, b, s') # _ \<Rightarrow> Some (g, length s - length s'))"

fun re_search_from :: "rx \<Rightarrow> bool \<Rightarrow> ustr \<Rightarrow> bool" where
  "re_search_from r b [] = (rxm r ([], b, []) \<noteq> [])"
| "re_search_from r b (x # xs) = (rxm r ([], b, x # xs) \<noteq> [] \<or> re_search_from r False xs)"

definition re_search :: "rx \<Rightarrow> ustr \<Rightarrow> bool" where
  "re_search r s = re_search_from r True s"

text \<open>\<open>m.group(k)\<close> is \<open>None\<close> for a group that took no part in the match.\<close>

definition group :: "rmatch \<Rightarrow> nat \<Rightarrow> ustr option" where
  "group m k = map_of (fst m) k"

definition lastindex :: "rmatch \<Rightarrow> nat option" where
  "lastindex m = (case fst m of [] \<Rightarrow> None | (k, _) # _ \<Rightarrow> Some k)"

subsection \<open>The module's patterns\<close>

text \<open>\<^verbatim>\<open>VERSION_RE = ^ver:"([^"]+)"\<close>\<close>

definition VERSION_RE :: rx where
  "VERSION_RE = seqs [Bol, lit ''ver:'', Lit 34, Grp 1 (plus (Cls (\<lambda>c. c \<noteq> 34))), Lit 34]"

text \<open>\<^verbatim>\<open>COORD_RE = C\(([^,]+),([^)]+)\)\<close>\<close>

definition COORD_RE :: rx where
  "COORD_RE = seqs [lit ''C('', Grp 1 (plus (Cls (\<lambda>c. c \<noteq> 44))), Lit 44,
                    Grp 2 (plus (Cls (\<lambda>c. c \<noteq> 41))), Lit 41]"

text \<open>\<^verbatim>\<open>REF_RE = @([\w:.\-~]*)(?: "([^"]+)")?\<close>\<close>

definition REF_RE :: "pyenv \<Rightarrow> rx" where
  "REF_RE U = seqs [Lit 64,
     Grp 1 (Star (Cls (\<lambda>c. is_word U c \<or> c = 58 \<or> c = 46 \<or> c = 45 \<or> c = 126))),
     Opt (seqs [Lit 32, Lit 34, Grp 2 (plus (Cls (\<lambda>c. c \<noteq> 34))), Lit 34])]"

text \<open>\<^verbatim>\<open>BIN_RE = Bin\(([^\)]*)\)\<close>\<close>

definition BIN_RE :: rx where
  "BIN_RE = seqs [lit ''Bin('', Grp 1 (Star (Cls (\<lambda>c. c \<noteq> 41))), Lit 41]"

text \<open>\<^verbatim>\<open>XSTR_RE = (\w+)\("([^"]*)"\)\<close>\<close>

definition XSTR_RE :: "pyenv \<Rightarrow> rx" where
  "XSTR_RE U = seqs [Grp 1 (plus (Cls (is_word U))), Lit 40, Lit 34,
                     Grp 2 (Star (Cls (\<lambda>c. c \<noteq> 34))), Lit 34, Lit 41]"

text \<open>\<^verbatim>\<open>DATETIME_RE =
  (\d{4}-\d{2}-\d{2}T\d{2}:\d{2}:\d{2}(?:\.\d+)?(?:Z|[+-]\d{2}:\d{2})?)(?: (\w+))?\<close>\<close>

definition DATETIME_RE :: "pyenv \<Rightarrow> rx" where
  "DATETIME_RE U = (let d = Cls (is_decimal U) in seqs [
     Grp 1 (seqs [rep4 d, Lit 45, rep2 d, Lit 45, rep2 d, Lit 84,
                  rep2 d, Lit 58, rep2 d, Lit 58, rep2 d,
                  Opt (Seq (Lit 46) (plus d)),
                  Opt (Alt (Lit 90)
                           (seqs [Cls (\<lambda>c. c = 43 \<or> c = 45), rep2 d, Lit 58, rep2 d]))]),
     Opt (seqs [Lit 32, Grp 2 (plus (Cls (is_word U)))])])"

text \<open>\<^verbatim>\<open>DATE_RE = ^\d{4}-\d{2}-\d{2}$\<close>\<close>

definition DATE_RE :: "pyenv \<Rightarrow> rx" where
  "DATE_RE U = (let d = Cls (is_decimal U) in
     seqs [Bol, rep4 d, Lit 45, rep2 d, Lit 45, rep2 d, Eol])"

text \<open>\<^verbatim>\<open>TIME_RE = ^(\d{2}:\d{2}:\d{2}(?:\.\d+)?)$\<close>\<close>

definition TIME_RE :: "pyenv \<Rightarrow> rx" where
  "TIME_RE U = (let d = Cls (is_decimal U) in
     seqs [Bol, Grp 1 (seqs [rep2 d, Lit 58, rep2 d, Lit 58, rep2 d,
                             Opt (Seq (Lit 46) (plus d))]), Eol])"

text \<open>\<^verbatim>\<open>NUMBER_RE =
  ^([+-]?(?:\d+_)*\d+(?:\.\d+)?(?:[eE][+-]?\d+)?)([\w%_/$\u0080-\uffff]+)?$\<close>\<close>

definition NUMBER_RE :: "pyenv \<Rightarrow> rx" where
  "NUMBER_RE U = (let d = Cls (is_decimal U); sign = Cls (\<lambda>c. c = 43 \<or> c = 45) in seqs [Bol,
     Grp 1 (seqs [Opt sign, Star (Seq (plus d) (Lit 95)), plus d,
                  Opt (Seq (Lit 46) (plus d)),
                  Opt (seqs [Cls (\<lambda>c. c = 101 \<or> c = 69), Opt sign, plus d])]),
     Opt (Grp 2 (plus (Cls (\<lambda>c. is_word U c \<or> c = 37 \<or> c = 95 \<or> c = 47 \<or> c = 36
                                  \<or> (128 \<le> c \<and> c \<le> 65535))))),
     Eol])"

text \<open>\<^verbatim>\<open>URI_RE = ^`([^`]*)`$\<close>\<close>

definition URI_RE :: rx where
  "URI_RE = seqs [Bol, Lit 96, Grp 1 (Star (Cls (\<lambda>c. c \<noteq> 96))), Lit 96, Eol]"

text \<open>\<^verbatim>\<open>STR_RE = ^"((?:[^"\\]|\\[bfnrt\\"$]|\\[uU][0-9a-fA-F]{4})*)"$\<close>\<close>

definition STR_RE :: rx where
  "STR_RE = seqs [Bol, Lit 34,
     Grp 1 (Star (Alt (Cls (\<lambda>c. c \<noteq> 34 \<and> c \<noteq> 92))
                 (Alt (Seq (Lit 92) (Cls (\<lambda>c. c \<in> {98, 102, 110, 114, 116, 92, 34, 36})))
                      (seqs [Lit 92, Cls (\<lambda>c. c = 117 \<or> c = 85), rep4 (Cls ascii_hex)])))),
     Lit 34, Eol]"

text \<open>\<^verbatim>\<open>^[a-z][a-zA-Z0-9_]*$\<close>, the tag-name pattern of \<open>_parse_meta\<close>.\<close>

definition TAG_RE :: rx where
  "TAG_RE = seqs [Bol, Cls ascii_lower,
     Star (Cls (\<lambda>c. ascii_lower c \<or> ascii_upper c \<or> ascii_digit c \<or> c = 95)), Eol]"

text \<open>\<^verbatim>\<open>T\d{2}:\d{2}:\d{2}[^,\n]*[+-]\d{2}:\d{2}\s+[A-Z][a-zA-Z_]+\<close>, searched in the first
  line.\<close>

definition TZNAME_RE :: "pyenv \<Rightarrow> rx" where
  "TZNAME_RE U = (let d = Cls (is_decimal U) in seqs [Lit 84, rep2 d, Lit 58, rep2 d, Lit 58,
     rep2 d, Star (Cls (\<lambda>c. c \<noteq> 44 \<and> c \<noteq> 10)), Cls (\<lambda>c. c = 43 \<or> c = 45), rep2 d, Lit 58,
     rep2 d, plus (Cls (is_space U)), Cls ascii_upper,
     plus (Cls (\<lambda>c. ascii_lower c \<or> ascii_upper c \<or> c = 95))])"

text \<open>\<^verbatim>\<open>\s[A-Z][A-Z]+\<close>, searched in the column line.\<close>

definition UPPER_TAG_RE :: "pyenv \<Rightarrow> rx" where
  "UPPER_TAG_RE U = seqs [Cls (is_space U), Cls ascii_upper, plus (Cls ascii_upper)]"

text \<open>\<^verbatim>\<open>^[a-zA-Z_]\w*\(\<close>, matched against a row value.\<close>

definition CALL_RE :: "pyenv \<Rightarrow> rx" where
  "CALL_RE U = seqs [Bol, Cls (\<lambda>c. ascii_lower c \<or> ascii_upper c \<or> c = 95),
     Star (Cls (is_word U)), Lit 40]"

section \<open>Scalar values\<close>

text \<open>
  \<open>float(s)\<close>. The value of a decimal literal is kept as the rational it denotes:
  \<open>FFinite q\<close> stands for the double nearest to \<open>q\<close>; rounding, overflow to infinity and
  the sign of zero are not modelled.
\<close>

datatype pyfloat = FFinite rat | FInf | FNegInf | FNaN

fun float_underscores :: "nat \<Rightarrow> ustr \<Rightarrow> bool" where
  "float_underscores prev [] = (prev \<noteq> 95)"
| "float_underscores prev (c # cs) =
     ((if c = 95 then ascii_digit prev else \<not> (prev = 95 \<and> \<not> ascii_digit c))
      \<and> float_underscores c cs)"

definition ascii_lowercase :: "ustr \<Rightarrow> ustr" where
  "ascii_lowercase s = map (\<lambda>c. if ascii_upper c then c + 32 else c) s"

definition decimal_value :: "ustr \<Rightarrow> nat" where
  "decimal_value ds = foldl (\<lambda>acc c. 10 * acc + (c - 48)) 0 ds"

definition scale10 :: "int \<Rightarrow> int \<Rightarrow> rat" where
  "scale10 m e = (if 0 \<le> e then of_int m * 10 ^ nat e else of_int m / 10 ^ nat (- e))"

text \<open>The exponent part: \<open>e\<close> or \<open>E\<close>, an optional sign and at least one digit, to the end.\<close>

definition float_exponent :: "ustr \<Rightarrow> int option" where
  "float_exponent s = (case s of [] \<Rightarrow> Some 0
     | c # r \<Rightarrow> if c = 101 \<or> c = 69 then
         (case strip_sign r of (esign, ds) \<Rightarrow>
            if ds \<noteq> [] \<and> list_all ascii_digit ds then Some (esign * int (decimal_value ds))
            else None)
       else None)"

definition float_literal :: "ustr \<Rightarrow> pyfloat option" where
  "float_literal s = (case strip_sign s of (sign, body) \<Rightarrow>
     if ascii_lowercase body = u ''inf'' \<or> ascii_lowercase body = u ''infinity''
     then Some (if sign < 0 then FNegInf else FInf)
     else if ascii_lowercase body = u ''nan'' then Some FNaN
     else (case (takeWhile ascii_digit body, dropWhile ascii_digit body) of (ip, r1) \<Rightarrow>
       (case (if startswith r1 [46] then (takeWhile ascii_digit (tl r1), dropWhile ascii_digit (tl r1))
              else ([], r1)) of (fp, r2) \<Rightarrow>
          if ip = [] \<and> fp = [] then None
          else (case float_exponent r2 of None \<Rightarrow> None
                | Some e \<Rightarrow> Some (FFinite (scale10 (sign * int (decimal_value (ip @ fp)))
                                                    (e - int (length fp))))))))"

definition py_float :: "pyenv \<Rightarrow> ustr \<Rightarrow> error + pyfloat" where
  "py_float U s = (case to_ascii U s of a \<Rightarrow>
     if 95 \<in> set a \<and> \<not> float_underscores 0 a
     then Inl (ValueError ''could not convert string to float'')
     else (case float_literal (rev (dropWhile c_isspace (rev (dropWhile c_isspace
                 (filter (\<lambda>c. c \<noteq> 95) a))))) of
             None \<Rightarrow> Inl (ValueError ''could not convert string to float'')
           | Some f \<Rightarrow> Inr f))"

text \<open>
  Modelled from the spec: the scalar classes \<open>Coordinate\<close>, \<open>Ref\<close>, \<open>Bin\<close>, \<open>XStr\<close>,
  \<open>Uri\<close>, \<open>Quantity\<close> and the singletons of \<open>hszinc/datatypes.py\<close>, which is not part of
  the sources: each is the variant of the scalar union with the payload the spec lists.
  A date-time is kept as the library call that produced it (\<open>iso8601.parse_date\<close> on a
  text, then \<open>astimezone\<close> with a zone name), a date and a time as the text given to
  \<open>strptime\<close>.
\<close>

datatype pydatetime = ParseDate ustr | AsTimezone pydatetime ustr

datatype pyval = Null | Marker | NA | Remove | Bool bool
  | Num pyfloat | Quantity pyfloat ustr | Coordinate pyfloat pyfloat
  | Ref ustr "ustr option" | Bin ustr | XStr ustr ustr | Uri ustr | Str ustr
  | DateTime pydatetime | Date ustr | Time ustr

section \<open>Scalar decoder\<close>

text \<open>
  \<open>m.group(k)\<close> handed to a function that wants a text, and
  \<open>m.group(k) if m.lastindex >= k else None\<close>; comparing \<open>None\<close> with a number
  raises \<open>TypeError\<close>.
\<close>

definition group_str :: "rmatch \<Rightarrow> nat \<Rightarrow> error + ustr" where
  "group_str m k = (case group m k of None \<Rightarrow> Inl (TypeError ''NoneType'') | Some g \<Rightarrow> Inr g)"

definition group_if_last :: "rmatch \<Rightarrow> nat \<Rightarrow> error + ustr option" where
  "group_if_last m k = (case lastindex m of None \<Rightarrow> Inl (TypeError ''NoneType'')
                        | Some j \<Rightarrow> Inr (if k \<le> j then group m k else None))"

text \<open>
  Each decoding rule of \<open>_parse_scalar\<close> is a function that returns \<open>None\<close> when its
  test or its pattern fails, so that the next rule is tried, and otherwise the value it
  returns or the error that its decoding raises.
\<close>

definition rule_literal :: "ustr \<Rightarrow> (error + pyval) option" where
  "rule_literal v =
     (if v = u ''M'' then Some (Inr Marker)
      else if v = u ''N'' then Some (Inr Null)
      else if v = u ''NA'' then Some (Inr NA)
      else if v = u ''R'' then Some (Inr Remove)
      else if v = u ''T'' then Some (Inr (Bool True))
      else if v = u ''F'' then Some (Inr (Bool False))
      else if v = u ''INF'' then Some (Inr (Num FInf))
      else if v = u ''-INF'' then Some (Inr (Num FNegInf))
      else if v = u ''NaN'' then Some (Inr (Num FNaN))
      else None)"

definition rule_coord :: "pyenv \<Rightarrow> ustr \<Rightarrow> (error + pyval) option" where
  "rule_coord U v =
     (if startswith v (u ''C('') then
        (case re_match COORD_RE v of None \<Rightarrow> None
         | Some m \<Rightarrow> Some
            (case group_str m 1 of Inl e \<Rightarrow> Inl e | Inr g1 \<Rightarrow>
             (case py_float U g1 of Inl e \<Rightarrow> Inl e | Inr lat \<Rightarrow>
              (case group_str m 2 of Inl e \<Rightarrow> Inl e | Inr g2 \<Rightarrow>
               (case py_float U g2 of Inl e \<Rightarrow> Inl e | Inr lng \<Rightarrow>
                  Inr (Coordinate lat lng))))))
      else None)"

definition rule_ref :: "pyenv \<Rightarrow> ustr \<Rightarrow> (error + pyval) option" where
  "rule_ref U v =
     (if startswith v (u ''@'') then
        (case re_match (REF_RE U) v of None \<Rightarrow> None
         | Some m \<Rightarrow> Some
            (case group_str m 1 of Inl e \<Rightarrow> Inl e | Inr ref_id \<Rightarrow>
             (case group_if_last m 2 of Inl e \<Rightarrow> Inl e | Inr ref_dis \<Rightarrow>
                Inr (Ref ref_id ref_dis))))
      else None)"

definition rule_bin :: "ustr \<Rightarrow> (error + pyval) option" where
  "rule_bin v =
     (if startswith v (u ''Bin('') then
        (case re_match BIN_RE v of None \<Rightarrow> None
         | Some m \<Rightarrow> Some
            (case group_str m 1 of Inl e \<Rightarrow> Inl e | Inr g1 \<Rightarrow> Inr (Bin g1)))
      else None)"

definition rule_xstr :: "pyenv \<Rightarrow> ustr \<Rightarrow> (error + pyval) option" where
  "rule_xstr U v =
     (if 40 \<in> set v \<and> endswith v (u '')'') \<and> \<not> startswith v (u ''C('') then
        (case re_match (XSTR_RE U) v of None \<Rightarrow> None
         | Some m \<Rightarrow> Some
            (case group_str m 1 of Inl e \<Rightarrow> Inl e | Inr g1 \<Rightarrow>
             (case group_str m 2 of Inl e \<Rightarrow> Inl e | Inr g2 \<Rightarrow>
              (case unescape U g2 False of Inl e \<Rightarrow> Inl e | Inr payload \<Rightarrow>
                 Inr (XStr g1 payload)))))
      else None)"

definition rule_uri :: "pyenv \<Rightarrow> ustr \<Rightarrow> (error + pyval) option" where
  "rule_uri U v =
     (if startswith v [96] then
        (case re_match URI_RE v of None \<Rightarrow> None
         | Some m \<Rightarrow> Some
            (case group_str m 1 of Inl e \<Rightarrow> Inl e | Inr g1 \<Rightarrow>
             (case unescape U g1 True of Inl e \<Rightarrow> Inl e | Inr t \<Rightarrow> Inr (Uri t))))
      else None)"

definition rule_str :: "pyenv \<Rightarrow> ustr \<Rightarrow> (error + pyval) option" where
  "rule_str U v =
     (if startswith v [34] then
        (case re_match STR_RE v of None \<Rightarrow> None
         | Some m \<Rightarrow> Some
            (case group_str m 1 of Inl e \<Rightarrow> Inl e | Inr g1 \<Rightarrow>
             (case unescape U g1 False of Inl e \<Rightarrow> Inl e | Inr t \<Rightarrow> Inr (Str t))))
      else None)"

text \<open>
  \<open>iso8601.parse_date\<close> may raise; a failure of \<open>timezone\<close> or \<open>astimezone\<close> is caught
  by the bare \<open>except\<close> and the offset-based date-time is returned.
\<close>

definition rule_datetime :: "pyenv \<Rightarrow> ustr \<Rightarrow> (error + pyval) option" where
  "rule_datetime U v =
     (if 84 \<in> set v \<and> (case v of [] \<Rightarrow> False | c # _ \<Rightarrow> is_digit U c \<or> c = 45) then
        (case re_match (DATETIME_RE U) v of None \<Rightarrow> None
         | Some m \<Rightarrow> Some
            (case group_str m 1 of Inl e \<Rightarrow> Inl e | Inr dt_str \<Rightarrow>
             (case group_if_last m 2 of Inl e \<Rightarrow> Inl e | Inr tz_name \<Rightarrow>
                if \<not> iso8601_ok U (py_upper U dt_str)
                then Inl (LibraryError ''iso8601.parse_date'')
                else (case tz_name of
                    None \<Rightarrow> Inr (DateTime (ParseDate (py_upper U dt_str)))
                  | Some tz \<Rightarrow>
                      if tz \<noteq> [] \<and> iso8601_has_tz U (py_upper U dt_str)
                         \<and> astimezone_ok U tz (py_upper U dt_str)
                      then Inr (DateTime (AsTimezone (ParseDate (py_upper U dt_str)) tz))
                      else Inr (DateTime (ParseDate (py_upper U dt_str)))))))
      else None)"

definition rule_date :: "pyenv \<Rightarrow> ustr \<Rightarrow> (error + pyval) option" where
  "rule_date U v =
     (case re_match (DATE_RE U) v of None \<Rightarrow> None
      | Some m \<Rightarrow> Some (if strptime_ok U ''%Y-%m-%d'' v then Inr (Date v)
                         else Inl (ValueError ''time data does not match format'')))"

definition rule_time :: "pyenv \<Rightarrow> ustr \<Rightarrow> (error + pyval) option" where
  "rule_time U v =
     (case re_match (TIME_RE U) v of None \<Rightarrow> None
      | Some m \<Rightarrow> Some
         (case group_str m 1 of Inl e \<Rightarrow> Inl e | Inr time_str \<Rightarrow>
            if strptime_ok U (if 46 \<in> set time_str then ''%H:%M:%S.%f'' else ''%H:%M:%S'') time_str
            then Inr (Time time_str)
            else Inl (ValueError ''time data does not match format'')))"

definition rule_number :: "pyenv \<Rightarrow> ustr \<Rightarrow> (error + pyval) option" where
  "rule_number U v =
     (case re_match (NUMBER_RE U) v of None \<Rightarrow> None
      | Some m \<Rightarrow> Some
         (case group_str m 1 of Inl e \<Rightarrow> Inl e | Inr g1 \<Rightarrow>
          (case group_if_last m 2 of Inl e \<Rightarrow> Inl e | Inr unit \<Rightarrow>
           (case py_float U (filter (\<lambda>c. c \<noteq> 95) g1) of Inl e \<Rightarrow> Inl e | Inr num \<Rightarrow>
              (case unit of None \<Rightarrow> Inr (Num num)
               | Some un \<Rightarrow> if un \<noteq> [] then Inr (Quantity num un) else Inr (Num num))))))"

text \<open>The rules in the order of the source; the first that applies decides.\<close>

fun first_rule :: "(ustr \<Rightarrow> (error + pyval) option) list \<Rightarrow> ustr \<Rightarrow> (error + pyval) option" where
  "first_rule [] v = None"
| "first_rule (r # rs) v = (case r v of Some res \<Rightarrow> Some res | None \<Rightarrow> first_rule rs v)"

definition scalar_rules :: "pyenv \<Rightarrow> (ustr \<Rightarrow> (error + pyval) option) list" where
  "scalar_rules U = [rule_literal, rule_coord U, rule_ref U, rule_bin, rule_xstr U, rule_uri U,
                     rule_str U, rule_datetime U, rule_date U, rule_time U, rule_number U]"

definition complex_prefix :: "ustr \<Rightarrow> bool" where
  "complex_prefix v \<longleftrightarrow> startswith v (u ''['') \<or> startswith v (u ''{'') \<or> startswith v (u ''<<'')"

definition parse_scalar :: "pyenv \<Rightarrow> ustr \<Rightarrow> error + pyval" where
  "parse_scalar U value0 = (case py_strip U value0 of v \<Rightarrow>
     if v = [] then Inr Null
     else if complex_prefix v then Inl (ValueError ''Complex type - use slow parser'')
     else (case first_rule (scalar_rules U) v of Some res \<Rightarrow> res | None \<Rightarrow> Inr (Str v)))"

section \<open>Delimited-field splitter\<close>

text \<open>The variables of the scanning loop of \<open>_split_csv_values\<close>.\<close>

record csv_state =
  csv_values :: "ustr list"
  csv_current :: ustr
  csv_in_string :: bool
  csv_in_uri :: bool
  csv_escape_next :: bool
  csv_paren_depth :: int

definition csv_init :: csv_state where
  "csv_init = \<lparr> csv_values = [], csv_current = [], csv_in_string = False, csv_in_uri = False,
                 csv_escape_next = False, csv_paren_depth = 0 \<rparr>"

text \<open>One turn of the loop, on the character \<open>c\<close>.\<close>

definition csv_step :: "pyenv \<Rightarrow> csv_state \<Rightarrow> nat \<Rightarrow> csv_state" where
  "csv_step U st c =
     (if csv_escape_next st then
        st\<lparr>csv_current := csv_current st @ [c], csv_escape_next := False\<rparr>
      else if c = 92 \<and> (csv_in_string st \<or> csv_in_uri st) then
        st\<lparr>csv_current := csv_current st @ [c], csv_escape_next := True\<rparr>
      else if c = 34 \<and> \<not> csv_in_uri st then
        st\<lparr>csv_in_string := \<not> csv_in_string st, csv_current := csv_current st @ [c]\<rparr>
      else if c = 96 \<and> \<not> csv_in_string st then
        st\<lparr>csv_in_uri := \<not> csv_in_uri st, csv_current := csv_current st @ [c]\<rparr>
      else if c = 40 \<and> \<not> csv_in_string st \<and> \<not> csv_in_uri st then
        st\<lparr>csv_paren_depth := csv_paren_depth st + 1, csv_current := csv_current st @ [c]\<rparr>
      else if c = 41 \<and> \<not> csv_in_string st \<and> \<not> csv_in_uri st then
        st\<lparr>csv_paren_depth := csv_paren_depth st - 1, csv_current := csv_current st @ [c]\<rparr>
      else if c = 44 \<and> \<not> csv_in_string st \<and> \<not> csv_in_uri st \<and> csv_paren_depth st = 0 then
        st\<lparr>csv_values := csv_values st @ [py_strip U (csv_current st)], csv_current := []\<rparr>
      else
        st\<lparr>csv_current := csv_current st @ [c]\<rparr>)"

definition csv_scan :: "pyenv \<Rightarrow> ustr \<Rightarrow> csv_state" where
  "csv_scan U line = foldl (csv_step U) csv_init line"

definition split_csv_values :: "pyenv \<Rightarrow> ustr \<Rightarrow> ustr list" where
  "split_csv_values U line = (case csv_scan U line of st \<Rightarrow>
     if csv_current st \<noteq> [] \<or> (line \<noteq> [] \<and> last line = 44)
     then csv_values st @ [py_strip U (csv_current st)]
     else csv_values st)"

text \<open>All three trackers of the splitter are inactive.\<close>

definition csv_top_level :: "csv_state \<Rightarrow> bool" where
  "csv_top_level st \<longleftrightarrow> \<not> csv_in_string st \<and> \<not> csv_in_uri st \<and> csv_paren_depth st = 0"

section \<open>Metadata tag-list parser\<close>

text \<open>
  Modelled from the spec: \<open>SortableDict\<close> of \<open>hszinc/sortabledict.py\<close>, which is not part
  of the sources: an order-preserving mapping whose overwrite keeps the original
  position. It and Python's \<open>dict\<close> are lists of pairs with distinct keys; an assignment
  to a key that is present replaces its value in place, and a new key goes to the end.
\<close>

fun dict_set :: "('k \<times> 'v) list \<Rightarrow> 'k \<Rightarrow> 'v \<Rightarrow> ('k \<times> 'v) list" where
  "dict_set [] k v = [(k, v)]"
| "dict_set ((k', v') # d) k v = (if k' = k then (k, v) # d else (k', v') # dict_set d k v)"

definition dict_get :: "('k \<times> 'v) list \<Rightarrow> 'k \<Rightarrow> 'v option" where
  "dict_get d k = map_of d k"

text \<open>An entry of \<open>items\<close>: a bare text or a pair of key and value text.\<close>

datatype meta_item = Bare ustr | KeyVal ustr ustr

record meta_state =
  meta_items :: "meta_item list"
  meta_key :: "ustr option"
  meta_val :: ustr
  meta_in_quote :: bool
  meta_in_uri :: bool
  meta_escape_next :: bool

definition meta_init :: meta_state where
  "meta_init = \<lparr> meta_items = [], meta_key = None, meta_val = [], meta_in_quote = False,
                  meta_in_uri = False, meta_escape_next = False \<rparr>"

text \<open>\<open>if current_key:\<close> holds for a key that is neither \<open>None\<close> nor empty.\<close>

definition key_set :: "ustr option \<Rightarrow> bool" where
  "key_set k \<longleftrightarrow> k \<noteq> None \<and> k \<noteq> Some []"

definition meta_step :: "pyenv \<Rightarrow> meta_state \<Rightarrow> nat \<Rightarrow> meta_state" where
  "meta_step U st c =
     (if meta_escape_next st then
        st\<lparr>meta_val := meta_val st @ [c], meta_escape_next := False\<rparr>
      else if c = 92 then
        st\<lparr>meta_val := meta_val st @ [c], meta_escape_next := True\<rparr>
      else if c = 34 \<and> \<not> meta_in_uri st then
        st\<lparr>meta_in_quote := \<not> meta_in_quote st, meta_val := meta_val st @ [c]\<rparr>
      else if c = 96 \<and> \<not> meta_in_quote st then
        st\<lparr>meta_in_uri := \<not> meta_in_uri st, meta_val := meta_val st @ [c]\<rparr>
      else if c = 58 \<and> \<not> meta_in_quote st \<and> \<not> meta_in_uri st \<and> meta_key st = None then
        st\<lparr>meta_key := Some (py_strip U (meta_val st)), meta_val := []\<rparr>
      else if c = 32 \<and> \<not> meta_in_quote st \<and> \<not> meta_in_uri st then
        (if py_strip U (meta_val st) \<noteq> [] then
           (if key_set (meta_key st) then
              st\<lparr>meta_items := meta_items st @ [KeyVal (the (meta_key st)) (py_strip U (meta_val st))],
                 meta_key := None, meta_val := []\<rparr>
            else
              st\<lparr>meta_items := meta_items st @ [Bare (py_strip U (meta_val st))], meta_val := []\<rparr>)
         else st\<lparr>meta_val := []\<rparr>)
      else
        st\<lparr>meta_val := meta_val st @ [c]\<rparr>)"

definition meta_scan :: "pyenv \<Rightarrow> ustr \<Rightarrow> meta_state" where
  "meta_scan U meta_str = foldl (meta_step U) meta_init meta_str"

text \<open>The loop and the handling of the last item.\<close>

definition meta_tokens :: "pyenv \<Rightarrow> ustr \<Rightarrow> meta_item list" where
  "meta_tokens U meta_str = (case meta_scan U meta_str of st \<Rightarrow>
     if py_strip U (meta_val st) \<noteq> [] then
       (if key_set (meta_key st)
        then meta_items st @ [KeyVal (the (meta_key st)) (py_strip U (meta_val st))]
        else meta_items st @ [Bare (py_strip U (meta_val st))])
     else meta_items st)"

text \<open>The conversion loop, which validates each tag name before it stores the tag.\<close>

fun meta_convert :: "pyenv \<Rightarrow> meta_item list \<Rightarrow> (ustr \<times> pyval) list
    \<Rightarrow> error + (ustr \<times> pyval) list" where
  "meta_convert U [] meta = Inr meta"
| "meta_convert U (KeyVal key val # its) meta =
     (if re_match TAG_RE key = None then Inl (ValueError ''Invalid tag name'')
      else (case parse_scalar U val of Inl e \<Rightarrow> Inl e
            | Inr v \<Rightarrow> meta_convert U its (dict_set meta key v)))"
| "meta_convert U (Bare item # its) meta =
     (if re_match TAG_RE item = None then Inl (ValueError ''Invalid tag name'')
      else meta_convert U its (dict_set meta item Marker))"

definition parse_meta :: "pyenv \<Rightarrow> ustr \<Rightarrow> error + (ustr \<times> pyval) list" where
  "parse_meta U meta_str =
     (case meta_str of [] \<Rightarrow> Inr []
      | c # _ \<Rightarrow>
          if is_upper U c
          then Inl (ValueError ''Invalid metadata - tag must start with lowercase letter'')
          else meta_convert U (meta_tokens U meta_str) [])"

section \<open>Grid assembler and dispatcher\<close>

text \<open>
  Modelled from the spec: the classes \<open>Grid\<close> and \<open>Version\<close> of \<open>hszinc/grid.py\<close> and
  \<open>hszinc/version.py\<close>, which are not part of the sources. A grid is its version, its
  ordered metadata, its ordered columns (name and metadata) and its ordered rows, each a
  mapping from column name to scalar; \<open>append\<close> adds a row at the end. A version is kept
  as the text it was built from, and \<open>version_ok\<close> says whether \<open>Version\<close> accepts it.
\<close>

record grid =
  g_version :: ustr
  g_metadata :: "(ustr \<times> pyval) list"
  g_columns :: "(ustr \<times> (ustr \<times> pyval) list) list"
  g_rows :: "(ustr \<times> pyval) list list"

text \<open>The loop over \<open>col_parts\<close>.\<close>

fun parse_columns :: "pyenv \<Rightarrow> ustr list \<Rightarrow> (ustr \<times> (ustr \<times> pyval) list) list
    \<Rightarrow> error + (ustr \<times> (ustr \<times> pyval) list) list" where
  "parse_columns U [] columns = Inr columns"
| "parse_columns U (col_str0 # rest) columns = (case py_strip U col_str0 of col_str \<Rightarrow>
     if 32 \<in> set col_str then
       (case py_split_max 32 1 col_str of
          [col_name, meta_str] \<Rightarrow>
            (case parse_meta U meta_str of Inl e \<Rightarrow> Inl e
             | Inr col_meta \<Rightarrow> parse_columns U rest (columns @ [(col_name, col_meta)]))
        | _ \<Rightarrow> Inl (IndexError ''list index out of range''))
     else parse_columns U rest (columns @ [(col_str, [])]))"

text \<open>The test that a row value looks like a scalar of the fast path.\<close>

definition value_ok :: "pyenv \<Rightarrow> ustr \<Rightarrow> bool" where
  "value_ok U val0 = (case py_strip U val0 of
       [] \<Rightarrow> True
     | c # cs \<Rightarrow>
         \<not> (c \<notin> {34, 96, 64, 77, 78, 84, 70, 82, 67, 66} \<and> \<not> is_digit U c \<and> c \<notin> {45, 43}
            \<and> re_match (CALL_RE U) (c # cs) = None
            \<and> c # cs \<notin> {u ''INF'', u ''-INF'', u ''NaN'', u ''NA''}))"

text \<open>\<open>while len(values) < len(col_names): values.append('')\<close>\<close>

function pad_values :: "ustr list \<Rightarrow> nat \<Rightarrow> ustr list" where
  "pad_values vals n = (if length vals < n then pad_values (vals @ [[]]) n else vals)"
  by pat_completeness auto
termination
  by (relation "measure (\<lambda>(vals, n). n - length vals)") auto

declare pad_values.simps [simp del]

text \<open>The loop over \<open>enumerate(col_names)\<close> that fills \<open>row_data\<close>.\<close>

fun fill_row :: "pyenv \<Rightarrow> ustr list \<Rightarrow> nat \<Rightarrow> ustr list \<Rightarrow> (ustr \<times> pyval) list
    \<Rightarrow> error + (ustr \<times> pyval) list" where
  "fill_row U [] i vals row_data = Inr row_data"
| "fill_row U (col_name # names) i vals row_data =
     (if i < length vals then
        (case parse_scalar U (vals ! i) of Inl e \<Rightarrow> Inl e
         | Inr v \<Rightarrow> fill_row U names (i + 1) vals (dict_set row_data col_name v))
      else fill_row U names (i + 1) vals (dict_set row_data col_name Null))"

text \<open>One non-blank row line, already stripped.\<close>

definition parse_row :: "pyenv \<Rightarrow> ustr list \<Rightarrow> ustr \<Rightarrow> error + (ustr \<times> pyval) list" where
  "parse_row U col_names line =
     (if py_in [92, 96] line
      then Inl (ValueError ''Complex URI escaping in row - use slow parser'')
      else if \<not> list_all (value_ok U) (split_csv_values U line)
      then Inl (ValueError ''Malformed value in row'')
      else fill_row U col_names 0 (pad_values (split_csv_values U line) (length col_names)) [])"

text \<open>The loop over the row lines; \<open>g\<close> is the grid built so far.\<close>

fun parse_rows :: "pyenv \<Rightarrow> ustr list \<Rightarrow> ustr list \<Rightarrow> grid \<Rightarrow> error + grid" where
  "parse_rows U col_names [] g = Inr g"
| "parse_rows U col_names (l # ls) g =
     (if py_strip U l = [] then parse_rows U col_names ls g
      else (case parse_row U col_names (py_strip U l) of Inl e \<Rightarrow> Inl e
            | Inr row_data \<Rightarrow> parse_rows U col_names ls (g\<lparr>g_rows := g_rows g @ [row_data]\<rparr>)))"

text \<open>The checks at the head of \<open>parse_grid_fast\<close>, in the order of the source.\<close>

definition complex_checks :: "pyenv \<Rightarrow> ustr \<Rightarrow> error option" where
  "complex_checks U grid_str =
     (if py_in (u ''<<'') grid_str \<or> 123 \<in> set grid_str
      then Some (ValueError ''Complex grid - use slow parser'')
      else if 91 \<in> set (take (min 200 (length grid_str)) grid_str)
      then Some (ValueError ''Complex grid - use slow parser'')
      else (case py_split_max 10 2 grid_str of
          [] \<Rightarrow> None
        | first_line # _ \<Rightarrow>
            if re_search (TZNAME_RE U) first_line
            then Some (ValueError ''Complex metadata with timezone names - use slow parser'')
            else if py_in [92, 96] first_line
            then Some (ValueError ''Complex URI escaping - use slow parser'')
            else None))"

definition parse_grid_fast :: "pyenv \<Rightarrow> ustr \<Rightarrow> error + grid" where
  "parse_grid_fast U grid_str =
     (case complex_checks U grid_str of Some e \<Rightarrow> Inl e
      | None \<Rightarrow>
     (case py_split 10 grid_str of
        [] \<Rightarrow> Inl (ValueError ''Empty grid'')
      | line1 # rest_lines \<Rightarrow>
     (case re_match VERSION_RE line1 of
        None \<Rightarrow> Inl (ValueError ''Invalid grid: missing version on line 1'')
      | Some ver_match \<Rightarrow>
     (case group_str ver_match 1 of Inl e \<Rightarrow> Inl e
      | Inr ver \<Rightarrow>
     if \<not> version_ok U ver then Inl (LibraryError ''Version'')
     else
     (case parse_meta U (py_strip U (drop (snd ver_match) line1)) of Inl e \<Rightarrow> Inl e
      | Inr grid_meta \<Rightarrow>
     (case rest_lines of
        [] \<Rightarrow> Inl (ValueError ''Invalid grid: missing column headers'')
      | col_line # row_lines \<Rightarrow>
     if re_search (UPPER_TAG_RE U) col_line
     then Inl (ValueError ''Invalid column metadata - use slow parser'')
     else
     (case parse_columns U (split_csv_values U col_line) [] of Inl e \<Rightarrow> Inl e
      | Inr columns \<Rightarrow>
          parse_rows U (map fst columns) row_lines
            \<lparr> g_version = ver, g_metadata = grid_meta, g_columns = columns, g_rows = [] \<rparr>)))))))"

text \<open>
  The dispatcher. \<open>parse_grid_slow\<close> is the full-grammar parser of \<open>hszinc.zincparser\<close>,
  which is not part of the sources; it returns a grid or raises.
\<close>

definition parse_grid :: "pyenv \<Rightarrow> (ustr \<Rightarrow> bool \<Rightarrow> error + grid) \<Rightarrow> ustr \<Rightarrow> bool \<Rightarrow> error + grid" where
  "parse_grid U parse_grid_slow grid_str parseAll =
     (case parse_grid_fast U grid_str of
        Inr g \<Rightarrow> Inr g
      | Inl e \<Rightarrow> parse_grid_slow grid_str parseAll)"

text \<open>\<open>col_names = [col[0] for col in columns]\<close>, and the row lines that the row loop does not
  skip: the lines after the second, stripped, that are not empty.\<close>

definition col_names :: "grid \<Rightarrow> ustr list" where
  "col_names g = map fst (g_columns g)"

definition data_lines :: "pyenv \<Rightarrow> ustr \<Rightarrow> ustr list" where
  "data_lines U grid_str = filter (\<lambda>l. l \<noteq> []) (map (py_strip U) (drop 2 (py_split 10 grid_str)))"

text \<open>The elements of a list in the order of their first occurrence.\<close>

definition first_occ :: "'a list \<Rightarrow> 'a list" where
  "first_occ xs = rev (remdups (rev xs))"

text \<open>A grid of four columns whose only row has two fields, and the grid it parses to.\<close>

definition example_grid_text :: ustr where
  \<open>example_grid_text = u ''ver:"3.0"'' @ [10] @ u ''a,b,c,d'' @ [10] @ u ''1,2''\<close>

definition example_grid :: grid where
  "example_grid = \<lparr> g_version = u ''3.0'', g_metadata = [],
     g_columns = [(u ''a'', []), (u ''b'', []), (u ''c'', []), (u ''d'', [])],
     g_rows = [[(u ''a'', Num (FFinite 1)), (u ''b'', Num (FFinite 2)),
                (u ''c'', Null), (u ''d'', Null)]] \<rparr>"

section \<open>Properties of the escape decoder\<close>

lemma prepend_simps [simp]:
  "prepend xs (Inl e) = Inl e" "prepend xs (Inr t) = Inr (xs @ t)"
  by (simp_all add: prepend_def)

lemma unescape_loop_result:
  "unescape_loop U uri s (a @ b) = prepend a (unescape_loop U uri s b)"
proof (induction U uri s b arbitrary: a rule: unescape_loop.induct)
  case (1 U uri result)
  then show ?case by simp
next
  case (2 U uri c result)
  then show ?case by simp
next
  case (3 U uri c esc_c rest result)
  show ?case
  proof (cases "c = 92")
    case False
    then show ?thesis using "3.IH"(8)[of a] by simp
  next
    case True
    note c = True
    show ?thesis
    proof (cases "(esc_c = 117 \<or> esc_c = 85) \<and> 4 \<le> length rest")
      case True
      then show ?thesis using c "3.IH"(1)[of _ _ a]
        by (simp split: sum.splits)
    next
      case False
      then have n: "((esc_c = 117 \<or> esc_c = 85) \<and> 4 \<le> length rest) = False" by simp
      show ?thesis using c "3.IH"(2-7)[of a] False
        by (simp add: n del: de_Morgan_conj)
    qed
  qed
qed

lemma unescape_loop_plain:
  "92 \<notin> set s \<Longrightarrow> unescape_loop U uri s result = Inr (result @ s)"
  by (induction U uri s result rule: unescape_loop.induct) auto

lemma unescape_is_loop: "unescape U s uri = unescape_loop U uri s []"
  by (simp add: unescape_def unescape_loop_plain)

lemma unescape_loop_start:
  "unescape_loop U uri s a = prepend a (unescape U s uri)"
  using unescape_loop_result[of U uri s a "[]"] by (simp add: unescape_is_loop)

lemma hex_char:
  assumes "ascii_hex a"
  shows "a < 127" "\<not> c_isspace a" "a \<noteq> 43" "a \<noteq> 45" "a \<noteq> 120" "a \<noteq> 88" "a \<noteq> 95"
    "digit_value a < 16"
  using assms
  by (auto simp: digit_value_def ascii_hex_def ascii_digit_def ascii_lower_def ascii_upper_def
      c_isspace_def)

lemma hex4:
  assumes "ascii_hex a" "ascii_hex b" "ascii_hex c" "ascii_hex d"
  shows "py_int16 U [a,b,c,d] = Inr (int (hex_value [a,b,c,d]))"
  using hex_char[OF assms(1)] hex_char[OF assms(2)] hex_char[OF assms(3)] hex_char[OF assms(4)]
  by (simp add: py_int16_def to_ascii_def strip_sign_def strip_0x_def)

lemma hex_value4: "hex_value [a,b,c,d] = 4096 * digit_value a + 256 * digit_value b + 16 * digit_value c + digit_value d"
  by (simp add: hex_value_def)

lemma chr_hex4: "ascii_hex a \<Longrightarrow> ascii_hex b \<Longrightarrow> ascii_hex c \<Longrightarrow> ascii_hex d \<Longrightarrow>
   py_chr (int (hex_value [a,b,c,d])) = Inr (hex_value [a,b,c,d])"
  using hex_char(8)[of a] hex_char(8)[of b] hex_char(8)[of c] hex_char(8)[of d]
  by (simp add: py_chr_def hex_value4)

lemma unescape_step:
  "unescape U (c # esc_c # rest) uri =
     (if c = 92 then
        if (esc_c = 117 \<or> esc_c = 85) \<and> 4 \<le> length rest then
          (case py_int16 U (take 4 rest) of
             Inl e \<Rightarrow> Inl e
           | Inr n \<Rightarrow> (case py_chr n of
               Inl e \<Rightarrow> Inl e
             | Inr cp \<Rightarrow> prepend [cp] (unescape U (drop 4 rest) uri)))
        else if esc_c = 98 then prepend [8] (unescape U rest uri)
        else if esc_c = 102 then prepend [12] (unescape U rest uri)
        else if esc_c = 110 then prepend [10] (unescape U rest uri)
        else if esc_c = 114 then prepend [13] (unescape U rest uri)
        else if esc_c = 116 then prepend [9] (unescape U rest uri)
        else prepend ((if uri \<and> esc_c = 35 then [92] else []) @ [esc_c]) (unescape U rest uri)
      else prepend [c] (unescape U (esc_c # rest) uri))"
  unfolding unescape_is_loop[of U "c # esc_c # rest"] unescape_loop.simps(3)
  by (simp only: unescape_loop_start append_Nil)

text \<open>
  Claim C9, as stated, fails: in \<open>\uzzzz\<close> the escaped character \<open>u\<close> is followed by four
  characters that are no hexadecimal digits, so the claim's last case would return
  \<open>uzzzz\<close>; the decoder hands \<open>zzzz\<close> to \<open>int(_, 16)\<close>, which raises.
\<close>

theorem unescape_other_counterexample:
  "\<not> list_all ascii_hex (u ''zzzz'')
 \<and> unescape ascii_env (92 # u ''uzzzz'') False
     = Inl (ValueError ''invalid literal for int() with base 16'')
 \<and> unescape ascii_env (92 # u ''uzzzz'') False \<noteq> Inr (u ''uzzzz'')"
  by (simp add: unescape_def py_int16_def to_ascii_def strip_sign_def strip_0x_def c_isspace_def
      digit_value_def ascii_hex_def ascii_digit_def ascii_lower_def ascii_upper_def u_def)

text \<open>
  Claim C9, amended. The escape decoder returns a text without a backslash as it is. On
  any text, a character other than a backslash is copied; a backslash followed by \<open>u\<close> or
  \<open>U\<close> and four hexadecimal digits becomes the one code point the digits denote; a
  backslash followed by \<open>b\<close>, \<open>f\<close>, \<open>n\<close>, \<open>r\<close>, \<open>t\<close> becomes the control character 8, 12,
  10, 13, 9; a backslash followed by any character other than these seven letters becomes
  that character (as does \<open>u\<close> or \<open>U\<close> with fewer than four characters after it), except
  that in URI mode an escaped \<open>#\<close> keeps its backslash. In each case the rest of the text
  is decoded in the same way. When \<open>u\<close> or \<open>U\<close> is followed by four or more characters, the
  first four go to \<open>int(_, 16)\<close> and \<open>chr\<close>; when these fail, as on \<open>zzzz\<close>, the decoder
  fails with their error instead of returning \<open>u\<close>.
\<close>

theorem unescape_spec:
  "(92 \<notin> set s \<longrightarrow> unescape U s uri = Inr s)
 \<and> (c \<noteq> 92 \<longrightarrow> unescape U (c # s) uri = prepend [c] (unescape U s uri))
 \<and> ((esc = 117 \<or> esc = 85) \<and> ascii_hex h1 \<and> ascii_hex h2 \<and> ascii_hex h3 \<and> ascii_hex h4 \<longrightarrow>
      unescape U (92 # esc # h1 # h2 # h3 # h4 # s) uri =
        prepend [4096 * digit_value h1 + 256 * digit_value h2 + 16 * digit_value h3 + digit_value h4]
          (unescape U s uri))
 \<and> unescape U (92 # 98 # s) uri = prepend [8] (unescape U s uri)
 \<and> unescape U (92 # 102 # s) uri = prepend [12] (unescape U s uri)
 \<and> unescape U (92 # 110 # s) uri = prepend [10] (unescape U s uri)
 \<and> unescape U (92 # 114 # s) uri = prepend [13] (unescape U s uri)
 \<and> unescape U (92 # 116 # s) uri = prepend [9] (unescape U s uri)
 \<and> (esc \<notin> {117, 85, 98, 102, 110, 114, 116} \<and> \<not> (uri \<and> esc = 35) \<longrightarrow>
      unescape U (92 # esc # s) uri = prepend [esc] (unescape U s uri))
 \<and> ((esc = 117 \<or> esc = 85) \<and> length s < 4 \<longrightarrow>
      unescape U (92 # esc # s) uri = prepend [esc] (unescape U s uri))
 \<and> unescape U (92 # 35 # s) True = prepend [92, 35] (unescape U s True)
 \<and> ((esc = 117 \<or> esc = 85) \<and> 4 \<le> length s \<longrightarrow>
      unescape U (92 # esc # s) uri =
        (case py_int16 U (take 4 s) of
           Inl e \<Rightarrow> Inl e
         | Inr n \<Rightarrow> (case py_chr n of
             Inl e \<Rightarrow> Inl e
           | Inr cp \<Rightarrow> prepend [cp] (unescape U (drop 4 s) uri))))"
proof (intro conjI impI)
  show "unescape U s uri = Inr s" if "92 \<notin> set s"
    using that by (simp add: unescape_def)
  show "unescape U (c # s) uri = prepend [c] (unescape U s uri)" if "c \<noteq> 92"
  proof (cases s)
    case Nil
    then show ?thesis using that by (simp add: unescape_def)
  next
    case (Cons x xs)
    then show ?thesis using that by (simp add: unescape_step)
  qed
  show "unescape U (92 # esc # h1 # h2 # h3 # h4 # s) uri =
        prepend [4096 * digit_value h1 + 256 * digit_value h2 + 16 * digit_value h3 + digit_value h4]
          (unescape U s uri)"
    if "(esc = 117 \<or> esc = 85) \<and> ascii_hex h1 \<and> ascii_hex h2 \<and> ascii_hex h3 \<and> ascii_hex h4"
  proof -
    have "py_int16 U [h1, h2, h3, h4] = Inr (int (hex_value [h1, h2, h3, h4]))"
      using that by (simp add: hex4)
    moreover have "py_chr (int (hex_value [h1, h2, h3, h4])) = Inr (hex_value [h1, h2, h3, h4])"
      using that by (simp add: chr_hex4)
    ultimately show ?thesis
      using that by (simp add: unescape_step hex_value4)
  qed
  show "unescape U (92 # 98 # s) uri = prepend [8] (unescape U s uri)"
    by (simp add: unescape_step)
  show "unescape U (92 # 102 # s) uri = prepend [12] (unescape U s uri)"
    by (simp add: unescape_step)
  show "unescape U (92 # 110 # s) uri = prepend [10] (unescape U s uri)"
    by (simp add: unescape_step)
  show "unescape U (92 # 114 # s) uri = prepend [13] (unescape U s uri)"
    by (simp add: unescape_step)
  show "unescape U (92 # 116 # s) uri = prepend [9] (unescape U s uri)"
    by (simp add: unescape_step)
  show "unescape U (92 # esc # s) uri = prepend [esc] (unescape U s uri)"
    if "esc \<notin> {117, 85, 98, 102, 110, 114, 116} \<and> \<not> (uri \<and> esc = 35)"
    using that by (auto simp add: unescape_step)
  show "unescape U (92 # esc # s) uri = prepend [esc] (unescape U s uri)"
    if "(esc = 117 \<or> esc = 85) \<and> length s < 4"
    using that by (auto simp add: unescape_step)
  show "unescape U (92 # 35 # s) True = prepend [92, 35] (unescape U s True)"
    by (simp add: unescape_step)
  show "unescape U (92 # esc # s) uri =
        (case py_int16 U (take 4 s) of
           Inl e \<Rightarrow> Inl e
         | Inr n \<Rightarrow> (case py_chr n of
             Inl e \<Rightarrow> Inl e
           | Inr cp \<Rightarrow> prepend [cp] (unescape U (drop 4 s) uri)))"
    if "(esc = 117 \<or> esc = 85) \<and> 4 \<le> length s"
    using that by (simp add: unescape_step)
qed

theorem unescape_spec_witness:
  "92 \<notin> set (u ''abc'') \<and> unescape ascii_env (u ''abc'') False = Inr (u ''abc'')
 \<and> (97::nat) \<noteq> 92 \<and> unescape ascii_env (97 # u ''abc'') False = prepend [97] (unescape ascii_env (u ''abc'') False)
 \<and> ascii_hex 50 \<and> ascii_hex 48 \<and> ascii_hex 65 \<and> ascii_hex 99
 \<and> unescape ascii_env (92 # u ''u20Acabc'') False = Inr (8364 # u ''abc'')
 \<and> (47::nat) \<notin> {117, 85, 98, 102, 110, 114, 116}
 \<and> unescape ascii_env (92 # u ''/abc'') False = Inr (u ''/abc'')
 \<and> length (u ''abc'') < 4 \<and> unescape ascii_env (92 # u ''uabc'') False = Inr (u ''uabc'')
 \<and> 4 \<le> length (u ''+123'') \<and> unescape ascii_env (92 # u ''u+123'') True = Inr [291]"
  using unescape_spec [of "u ''abc''" ascii_env False 97 117 50 48 65 99]
    unescape_spec [of "u ''abc''" ascii_env False 97 47 50 48 65 99]
    unescape_spec [of "u ''+123''" ascii_env True 97 117 50 48 65 99]
  by (simp add: u_def ascii_hex_def ascii_digit_def digit_value_def ascii_lower_def ascii_upper_def
      py_int16_def to_ascii_def strip_sign_def strip_0x_def c_isspace_def hex_value_def py_chr_def
      unescape_def)

section \<open>Properties of the scalar decoder\<close>

text \<open>Unfolding sets for evaluating the parser on a concrete text.\<close>

lemmas rx_defs = seqs_def lit_def plus_def rep2_def rep4_def re_match_def group_def lastindex_def
  group_str_def group_if_last_def re_search_def

lemmas class_defs = ascii_digit_def ascii_lower_def ascii_upper_def ascii_hex_def is_space_def
  is_word_def is_decimal_def is_digit_def is_upper_def c_isspace_def

lemmas pat_defs = VERSION_RE_def COORD_RE_def REF_RE_def BIN_RE_def XSTR_RE_def DATETIME_RE_def
  DATE_RE_def TIME_RE_def NUMBER_RE_def URI_RE_def STR_RE_def TAG_RE_def TZNAME_RE_def
  UPPER_TAG_RE_def CALL_RE_def

lemmas float_defs = py_float_def to_ascii_def float_literal_def float_exponent_def strip_sign_def
  ascii_lowercase_def decimal_value_def scale10_def

lemmas rule_defs = rule_literal_def rule_coord_def rule_ref_def rule_bin_def rule_xstr_def
  rule_uri_def rule_str_def rule_datetime_def rule_date_def rule_time_def rule_number_def
  scalar_rules_def complex_prefix_def parse_scalar_def py_strip_def endswith_def u_def

lemmas scalar_eval = rule_defs rx_defs class_defs pat_defs float_defs Let_def py_upper_def

text \<open>
  Claim C10. The patterns of the Coordinate, Reference, Bin and DateTime rules are matched
  at the start of the token only, and nothing checks that the match reaches the end of
  the token: \<open>@foo bar\<close> decodes to the reference \<open>foo\<close> without display text,
  \<open>C(1,2)x\<close> to the coordinate (1, 2), \<open>Bin(text/plain)junk\<close> to the binary of type
  \<open>text/plain\<close>, and a date-time followed by \<open>junk\<close> decodes as the date-time alone does;
  the trailing text is dropped without an error.
\<close>

theorem parse_scalar_prefix_match:
  "parse_scalar U (u ''@foo bar'') = Inr (Ref (u ''foo'') None)
 \<and> parse_scalar U (u ''C(1,2)x'') = Inr (Coordinate (FFinite 1) (FFinite 2))
 \<and> parse_scalar U (u ''Bin(text/plain)junk'') = Inr (Bin (u ''text/plain''))
 \<and> parse_scalar U (u ''2020-01-01T00:00:00Zjunk'') = parse_scalar U (u ''2020-01-01T00:00:00Z'')"
proof (intro conjI)
  show "parse_scalar U (u ''@foo bar'') = Inr (Ref (u ''foo'') None)"
    by (simp add: scalar_eval)
  show "parse_scalar U (u ''C(1,2)x'') = Inr (Coordinate (FFinite 1) (FFinite 2))"
    by (simp add: scalar_eval)
  show "parse_scalar U (u ''Bin(text/plain)junk'') = Inr (Bin (u ''text/plain''))"
    by (simp add: scalar_eval)
  show "parse_scalar U (u ''2020-01-01T00:00:00Zjunk'') = parse_scalar U (u ''2020-01-01T00:00:00Z'')"
    by (simp add: scalar_eval)
qed

theorem parse_scalar_prefix_match_witness:
  "parse_scalar ascii_env (u ''@foo bar'') = Inr (Ref (u ''foo'') None)
 \<and> parse_scalar ascii_env (u ''C(1,2)x'') = Inr (Coordinate (FFinite 1) (FFinite 2))
 \<and> parse_scalar ascii_env (u ''Bin(text/plain)junk'') = Inr (Bin (u ''text/plain''))"
  using parse_scalar_prefix_match [of ascii_env] by simp

text \<open>
  Claim C4, as stated, fails: the trimmed token \<open>C(a,b)\<close> begins with none of \<open>[\<close>,
  \<open>{\<close>, \<open><<\<close>, yet the decoder raises, because the Coordinate pattern matches and
  \<open>float('a')\<close> fails.
\<close>

theorem parse_scalar_error_counterexample:
  "py_strip ascii_env (u ''C(a,b)'') = u ''C(a,b)'' \<and> u ''C(a,b)'' \<noteq> []
 \<and> \<not> complex_prefix (u ''C(a,b)'')
 \<and> parse_scalar ascii_env (u ''C(a,b)'') = Inl (ValueError ''could not convert string to float'')"
  by (simp add: scalar_eval ascii_env_def)

lemma first_rule_None: "first_rule rs v = None \<longleftrightarrow> (\<forall>r \<in> set rs. r v = None)"
  by (induction rs) (auto split: option.splits)

lemma first_rule_Some: "first_rule rs v = Some res \<Longrightarrow> \<exists>r \<in> set rs. r v = Some res"
  by (induction rs) (auto split: option.splits)

text \<open>
  Claim C4, amended. For every trimmed non-empty token: if it begins with \<open>[\<close>, \<open>{\<close> or
  \<open><<\<close> the decoder raises; if it does not and no decoding rule applies, the token is
  returned unchanged as an opaque string; and every other error is the error of a
  decoding rule whose test and pattern matched the token and whose decoding step failed.
\<close>

theorem parse_scalar_errors:
  assumes "py_strip U v = v" and "v \<noteq> []"
  shows "(complex_prefix v \<longrightarrow> parse_scalar U v = Inl (ValueError ''Complex type - use slow parser''))
       \<and> (\<not> complex_prefix v \<and> (\<forall>r \<in> set (scalar_rules U). r v = None) \<longrightarrow>
            parse_scalar U v = Inr (Str v))
       \<and> (\<forall>e. parse_scalar U v = Inl e \<and> \<not> complex_prefix v \<longrightarrow>
            (\<exists>r \<in> set (scalar_rules U). r v = Some (Inl e)))"
proof (intro conjI impI allI)
  have ps: "parse_scalar U v =
      (if complex_prefix v then Inl (ValueError ''Complex type - use slow parser'')
       else case first_rule (scalar_rules U) v of Some res \<Rightarrow> res | None \<Rightarrow> Inr (Str v))"
    unfolding parse_scalar_def assms(1) using assms(2) by simp
  show "parse_scalar U v = Inl (ValueError ''Complex type - use slow parser'')" if "complex_prefix v"
    using that by (simp add: ps)
  show "parse_scalar U v = Inr (Str v)"
    if "\<not> complex_prefix v \<and> (\<forall>r \<in> set (scalar_rules U). r v = None)"
  proof -
    have "first_rule (scalar_rules U) v = None"
      using that by (simp add: first_rule_None)
    then show ?thesis using that by (simp add: ps)
  qed
  show "\<exists>r \<in> set (scalar_rules U). r v = Some (Inl e)"
    if "parse_scalar U v = Inl e \<and> \<not> complex_prefix v" for e
  proof (cases "first_rule (scalar_rules U) v")
    case None
    from that have "\<not> complex_prefix v" and "parse_scalar U v = Inl e" by simp_all
    with None show ?thesis by (simp add: ps)
  next
    case (Some res)
    from that have "\<not> complex_prefix v" and "parse_scalar U v = Inl e" by simp_all
    with Some have "res = Inl e" by (simp add: ps)
    with Some show ?thesis by (auto dest: first_rule_Some)
  qed
qed

theorem parse_scalar_errors_witness:
  "py_strip ascii_env (u ''[1]'') = u ''[1]'' \<and> u ''[1]'' \<noteq> [] \<and> complex_prefix (u ''[1]'')
 \<and> parse_scalar ascii_env (u ''[1]'') = Inl (ValueError ''Complex type - use slow parser'')
 \<and> py_strip ascii_env (u ''hello'') = u ''hello'' \<and> u ''hello'' \<noteq> []
 \<and> \<not> complex_prefix (u ''hello'') \<and> first_rule (scalar_rules ascii_env) (u ''hello'') = None
 \<and> parse_scalar ascii_env (u ''hello'') = Inr (Str (u ''hello''))"
proof -
  have a: "py_strip ascii_env (u ''[1]'') = u ''[1]''" "u ''[1]'' \<noteq> []" "complex_prefix (u ''[1]'')"
    by (simp_all add: scalar_eval)
  have b: "py_strip ascii_env (u ''hello'') = u ''hello''" "u ''hello'' \<noteq> []"
    "\<not> complex_prefix (u ''hello'')"
    by (simp_all add: scalar_eval)
  have c: "first_rule (scalar_rules ascii_env) (u ''hello'') = None"
    by (simp add: scalar_eval)
  then have d: "\<forall>r \<in> set (scalar_rules ascii_env). r (u ''hello'') = None"
    by (simp add: first_rule_None)
  show ?thesis
    using parse_scalar_errors [OF a(1,2)] parse_scalar_errors [OF b(1,2)] a b c d by blast
qed

section \<open>Properties of the field splitter\<close>

lemmas csv_eval = split_csv_values_def csv_scan_def csv_step_def csv_init_def csv_top_level_def

lemma py_strip_idem: "py_strip U (py_strip U s) = py_strip U s"
proof -
  define t where "t = dropWhile (is_space U) s"
  define r where "r = rev (dropWhile (is_space U) (rev t))"
  have r: "py_strip U s = r" by (simp add: py_strip_def t_def r_def)
  have t: "t = r @ rev (takeWhile (is_space U) (rev t))"
    unfolding r_def by (metis rev_append rev_rev_ident takeWhile_dropWhile_id)
  have "dropWhile (is_space U) r = r"
  proof (cases "r = []")
    case True
    then show ?thesis by simp
  next
    case False
    with t have "hd t = hd r" by (metis hd_append2)
    moreover from False t have "t \<noteq> []" by auto
    then have "\<not> is_space U (hd t)" unfolding t_def by (rule hd_dropWhile)
    ultimately show ?thesis by (simp add: dropWhile_eq_self_iff)
  qed
  moreover have "dropWhile (is_space U) (rev r) = rev r"
    by (simp add: r_def)
  ultimately show ?thesis unfolding r by (simp add: py_strip_def)
qed

lemma csv_scan_snoc: "csv_scan U (pre @ [c]) = csv_step U (csv_scan U pre) c"
  by (simp add: csv_scan_def)

lemma csv_escape_inv:
  "csv_escape_next (csv_scan U pre) \<Longrightarrow> csv_in_string (csv_scan U pre) \<or> csv_in_uri (csv_scan U pre)"
proof (induction pre rule: rev_induct)
  case Nil
  then show ?case by (simp add: csv_scan_def csv_init_def)
next
  case (snoc c pre)
  then show ?case
    by (auto simp: csv_scan_snoc csv_step_def split: if_splits)
qed

lemma csv_current_empty:
  "csv_current (csv_scan U pre) = [] \<Longrightarrow> pre = [] \<or> last pre = 44"
proof (induction pre rule: rev_induct)
  case Nil
  then show ?case by simp
next
  case (snoc c pre)
  then show ?case
    by (auto simp: csv_scan_snoc csv_step_def split: if_splits)
qed

lemma csv_step_shift:
  "csv_step U (st\<lparr>csv_values := vs @ csv_values st\<rparr>) c =
     (csv_step U st c)\<lparr>csv_values := vs @ csv_values (csv_step U st c)\<rparr>"
  by (simp add: csv_step_def)

lemma csv_run_shift:
  "foldl (csv_step U) (st\<lparr>csv_values := vs @ csv_values st\<rparr>) s =
     (foldl (csv_step U) st s)\<lparr>csv_values := vs @ csv_values (foldl (csv_step U) st s)\<rparr>"
proof (induction s arbitrary: st)
  case Nil
  then show ?case by simp
next
  case (Cons c s)
  show ?case using Cons.IH[of "csv_step U st c"] by (simp add: csv_step_shift)
qed

lemma csv_values_stripped:
  "f \<in> set (csv_values (csv_scan U pre)) \<Longrightarrow> py_strip U f = f"
proof (induction pre arbitrary: f rule: rev_induct)
  case Nil
  then show ?case by (simp add: csv_scan_def csv_init_def)
next
  case (snoc c pre)
  then show ?case
    by (auto simp: csv_scan_snoc csv_step_def py_strip_idem split: if_splits)
qed

lemma split_after_comma:
  assumes "csv_top_level (csv_scan U pre)"
  shows "split_csv_values U (pre @ 44 # post) =
         (csv_values (csv_scan U pre) @ [py_strip U (csv_current (csv_scan U pre))])
         @ (if post = [] then [[]] else split_csv_values U post)"
proof -
  define st where "st = csv_scan U pre"
  define fs where "fs = csv_values st @ [py_strip U (csv_current st)]"
  have esc: "\<not> csv_escape_next st"
    using assms csv_escape_inv[of U pre] by (auto simp: st_def csv_top_level_def)
  have step: "csv_step U st 44 = csv_init\<lparr>csv_values := fs @ csv_values csv_init\<rparr>"
    using assms esc by (simp add: csv_step_def csv_top_level_def st_def[symmetric] fs_def csv_init_def)
  have "csv_scan U (pre @ 44 # post) = foldl (csv_step U) (csv_step U st 44) post"
    by (simp add: csv_scan_def st_def)
  also have "\<dots> = (csv_scan U post)\<lparr>csv_values := fs @ csv_values (csv_scan U post)\<rparr>"
    unfolding step csv_run_shift by (simp add: csv_scan_def)
  finally have scan: "csv_scan U (pre @ 44 # post) =
      (csv_scan U post)\<lparr>csv_values := fs @ csv_values (csv_scan U post)\<rparr>" .
  show ?thesis
  proof (cases "post = []")
    case True
    then show ?thesis
      using scan by (simp add: split_csv_values_def fs_def st_def csv_scan_def csv_init_def py_strip_def)
  next
    case False
    then show ?thesis
      using scan by (simp add: split_csv_values_def fs_def st_def)
  qed
qed

lemma split_prefix_fields:
  assumes "pre \<noteq> []" and "csv_top_level (csv_scan U pre)"
  shows "csv_values (csv_scan U pre) @ [py_strip U (csv_current (csv_scan U pre))]
         = split_csv_values U pre"
  using assms csv_current_empty[of U pre] by (auto simp: split_csv_values_def)

lemma split_fields_stripped:
  "f \<in> set (split_csv_values U line) \<Longrightarrow> py_strip U f = f"
  by (auto simp: split_csv_values_def py_strip_idem dest: csv_values_stripped split: if_splits)

text \<open>
  Claim C7. A comma read while all three trackers are inactive (outside a double-quoted
  string, outside a backtick URI, paren depth zero) ends the current field: the fields of
  \<open>pre , post\<close> are the fields read before the comma followed by the fields of \<open>post\<close>.
  A comma read in any other state is kept in the current field, and no other character
  ever ends a field. A trailing comma adds exactly one empty field. Every field returned
  is trimmed. And \<open>a,"b,c",d\<close> splits into \<open>a\<close>, \<open>"b,c"\<close>, \<open>d\<close>.
\<close>

theorem split_csv_values_spec:
  \<open>(csv_top_level (csv_scan U pre) \<longrightarrow>
      split_csv_values U (pre @ 44 # post) =
        (csv_values (csv_scan U pre) @ [py_strip U (csv_current (csv_scan U pre))])
        @ (if post = [] then [[]] else split_csv_values U post))
 \<and> (\<not> csv_top_level (csv_scan U pre) \<longrightarrow>
      csv_values (csv_scan U (pre @ [44])) = csv_values (csv_scan U pre)
      \<and> csv_current (csv_scan U (pre @ [44])) = csv_current (csv_scan U pre) @ [44])
 \<and> (c \<noteq> 44 \<longrightarrow> csv_values (csv_scan U (pre @ [c])) = csv_values (csv_scan U pre))
 \<and> (pre \<noteq> [] \<and> csv_top_level (csv_scan U pre) \<longrightarrow>
      split_csv_values U (pre @ [44]) = split_csv_values U pre @ [[]])
 \<and> split_csv_values U [44] = [[], []]
 \<and> (\<forall>f \<in> set (split_csv_values U line). py_strip U f = f)
 \<and> split_csv_values U (u ''a,"b,c",d'') = [u ''a'', u ''"b,c"'', u ''d'']\<close>
proof (intro conjI impI ballI)
  show "split_csv_values U (pre @ 44 # post) =
        (csv_values (csv_scan U pre) @ [py_strip U (csv_current (csv_scan U pre))])
        @ (if post = [] then [[]] else split_csv_values U post)"
    if "csv_top_level (csv_scan U pre)"
    using that by (rule split_after_comma)
  show "csv_values (csv_scan U (pre @ [44])) = csv_values (csv_scan U pre)"
    if "\<not> csv_top_level (csv_scan U pre)"
    using that by (auto simp: csv_scan_snoc csv_step_def csv_top_level_def)
  show "csv_current (csv_scan U (pre @ [44])) = csv_current (csv_scan U pre) @ [44]"
    if "\<not> csv_top_level (csv_scan U pre)"
    using that by (auto simp: csv_scan_snoc csv_step_def csv_top_level_def)
  show "csv_values (csv_scan U (pre @ [c])) = csv_values (csv_scan U pre)" if "c \<noteq> 44"
    using that by (simp add: csv_scan_snoc csv_step_def)
  show "split_csv_values U (pre @ [44]) = split_csv_values U pre @ [[]]"
    if "pre \<noteq> [] \<and> csv_top_level (csv_scan U pre)"
    using that split_after_comma[of U pre "[]"] split_prefix_fields[of pre U] by simp
  show "split_csv_values U [44] = [[], []]"
    by (simp add: csv_eval py_strip_def)
  show "py_strip U f = f" if "f \<in> set (split_csv_values U line)" for f
    using that by (rule split_fields_stripped)
  show \<open>split_csv_values U (u ''a,"b,c",d'') = [u ''a'', u ''"b,c"'', u ''d'']\<close>
    by (simp add: csv_eval py_strip_def u_def is_space_def)
qed

theorem split_csv_values_spec_witness:
  \<open>csv_top_level (csv_scan ascii_env (u ''a''))
 \<and> split_csv_values ascii_env (u ''a,b'') = [u ''a'', u ''b'']
 \<and> \<not> csv_top_level (csv_scan ascii_env (u ''(a''))
 \<and> csv_values (csv_scan ascii_env (u ''(a,'')) = []
 \<and> csv_current (csv_scan ascii_env (u ''(a,'')) = u ''(a,''
 \<and> csv_values (csv_scan ascii_env (u ''ab'')) = csv_values (csv_scan ascii_env (u ''a''))
 \<and> split_csv_values ascii_env (u ''a,'') = [u ''a'', []]
 \<and> py_strip ascii_env (u ''b'') = u ''b''\<close>
proof -
  have a: "csv_top_level (csv_scan ascii_env (u ''a''))" "u ''a'' \<noteq> []" "(98::nat) \<noteq> 44"
    by (simp_all add: csv_eval u_def)
  have b: "\<not> csv_top_level (csv_scan ascii_env (u ''(a''))"
    by (simp add: csv_eval u_def)
  have c: "u ''b'' \<in> set (split_csv_values ascii_env (u ''a,b''))"
    "split_csv_values ascii_env (u ''a'') = [u ''a'']"
    "split_csv_values ascii_env (u ''b'') = [u ''b'']"
    "csv_values (csv_scan ascii_env (u ''a'')) = []"
    "csv_current (csv_scan ascii_env (u ''a'')) = u ''a''"
    "csv_values (csv_scan ascii_env (u ''(a'')) = []"
    "csv_current (csv_scan ascii_env (u ''(a'')) = u ''(a''"
    "py_strip ascii_env (u ''a'') = u ''a''"
    by (simp_all add: csv_eval py_strip_def u_def is_space_def)
  have d: "u ''a,b'' = u ''a'' @ 44 # u ''b''" "u ''(a,'' = u ''(a'' @ [44]"
    "u ''a,'' = u ''a'' @ [44]" "u ''ab'' = u ''a'' @ [98]" "u ''b'' \<noteq> []"
    by (simp_all add: u_def)
  show ?thesis
    using split_csv_values_spec [of ascii_env "u ''a''" "u ''b''" 98 "u ''a,b''"]
      split_csv_values_spec [of ascii_env "u ''(a''" "u ''b''" 98 "u ''a,b''"] a b c
    unfolding d by simp
qed

section \<open>Properties of the metadata tag-list parser\<close>

lemmas meta_eval = parse_meta_def meta_tokens_def meta_scan_def meta_step_def meta_init_def key_set_def

lemmas grid_eval = parse_grid_fast_def complex_checks_def parse_row_def value_ok_def pad_values.simps
  ascii_env_def

text \<open>
  Claim C8, as stated, fails: in the token \<open>"a":5\<close> a double quote has opened (and
  closed) before the colon, and the colon is still taken as the separator.
\<close>

theorem colon_after_quote_counterexample:
  \<open>34 \<in> set (meta_val (meta_scan ascii_env (u ''"a"'')))
 \<and> \<not> meta_in_quote (meta_scan ascii_env (u ''"a"''))
 \<and> meta_key (meta_scan ascii_env (u ''"a"'')) = None
 \<and> meta_key (meta_scan ascii_env (u ''"a":'')) = Some (u ''"a"'')\<close>
  by (simp add: meta_eval u_def py_strip_def is_space_def)

lemma meta_key_kept:
  "meta_key st \<noteq> None \<Longrightarrow> 32 \<notin> set w \<Longrightarrow> meta_key (foldl (meta_step U) st w) = meta_key st"
proof (induction w arbitrary: st)
  case Nil
  then show ?case by simp
next
  case (Cons c w)
  from Cons.prems have k: "meta_key (meta_step U st c) = meta_key st"
    by (auto simp: meta_step_def)
  with Cons.prems have "meta_key (foldl (meta_step U) (meta_step U st c) w) = meta_key (meta_step U st c)"
    by (intro Cons.IH) auto
  with k show ?case by simp
qed

text \<open>
  Claim C8, amended. While no key is held, a character is taken as the key/value separator
  exactly when it is a colon that is not escaped and not inside an open double-quoted
  string or backtick URI (a quote or backtick that opened and closed earlier in the token
  does not prevent it); the key is then the trimmed text read so far. A key that is held
  changes only at a space outside quotes, where it is cleared, so within one
  space-separated token the separator is recognised at most once.
\<close>

theorem meta_colon_spec:
  "(meta_key st = None \<longrightarrow>
      (meta_key (meta_step U st c) \<noteq> None \<longleftrightarrow>
         c = 58 \<and> \<not> meta_escape_next st \<and> \<not> meta_in_quote st \<and> \<not> meta_in_uri st))
 \<and> (meta_key st = None \<and> meta_key (meta_step U st c) \<noteq> None \<longrightarrow>
      meta_step U st c = st\<lparr>meta_key := Some (py_strip U (meta_val st)), meta_val := []\<rparr>)
 \<and> (meta_key st \<noteq> None \<and> meta_key (meta_step U st c) \<noteq> meta_key st \<longrightarrow>
      c = 32 \<and> \<not> meta_escape_next st \<and> \<not> meta_in_quote st \<and> \<not> meta_in_uri st
      \<and> meta_key (meta_step U st c) = None)
 \<and> (meta_key st \<noteq> None \<and> 32 \<notin> set w \<longrightarrow> meta_key (foldl (meta_step U) st w) = meta_key st)"
proof (intro conjI impI)
  show "(meta_key (meta_step U st c) \<noteq> None) =
        (c = 58 \<and> \<not> meta_escape_next st \<and> \<not> meta_in_quote st \<and> \<not> meta_in_uri st)"
    if "meta_key st = None"
    using that by (auto simp: meta_step_def)
  show "meta_step U st c = st\<lparr>meta_key := Some (py_strip U (meta_val st)), meta_val := []\<rparr>"
    if "meta_key st = None \<and> meta_key (meta_step U st c) \<noteq> None"
    using that by (auto simp: meta_step_def split: if_splits)
  show "c = 32" "\<not> meta_escape_next st" "\<not> meta_in_quote st" "\<not> meta_in_uri st"
    "meta_key (meta_step U st c) = None"
    if "meta_key st \<noteq> None \<and> meta_key (meta_step U st c) \<noteq> meta_key st"
    using that by (auto simp: meta_step_def split: if_splits)
  show "meta_key (foldl (meta_step U) st w) = meta_key st"
    if "meta_key st \<noteq> None \<and> 32 \<notin> set w"
    using that by (simp add: meta_key_kept)
qed

theorem meta_colon_spec_witness:
  "meta_key (meta_scan ascii_env (u ''a'')) = None
 \<and> meta_key (meta_scan ascii_env (u ''a:'')) = Some (u ''a'')
 \<and> meta_val (meta_scan ascii_env (u ''a:'')) = []
 \<and> 32 \<notin> set (u ''b:c'')
 \<and> meta_key (meta_scan ascii_env (u ''a:b:c'')) = Some (u ''a'')
 \<and> meta_key (meta_scan ascii_env (u ''a:b '')) = None"
proof -
  have a: "meta_key (meta_scan ascii_env (u ''a'')) = None"
    "meta_key (meta_scan ascii_env (u ''a:'')) = Some (u ''a'')"
    "32 \<notin> set (u ''b:c'')"
    "meta_key (meta_scan ascii_env (u ''a:b'')) = Some (u ''a'')"
    "meta_key (meta_scan ascii_env (u ''a:b '')) = None"
    by (simp_all add: meta_eval u_def py_strip_def is_space_def)
  have b: "meta_scan ascii_env (u ''a:'') = meta_step ascii_env (meta_scan ascii_env (u ''a'')) 58"
    "meta_scan ascii_env (u ''a:b:c'') = foldl (meta_step ascii_env) (meta_scan ascii_env (u ''a:'')) (u ''b:c'')"
    "meta_scan ascii_env (u ''a:b '') = meta_step ascii_env (meta_scan ascii_env (u ''a:b'')) 32"
    by (simp_all add: meta_scan_def u_def)
  show ?thesis
    using meta_colon_spec [of "meta_scan ascii_env (u ''a'')" ascii_env 58 "u ''b:c''"]
      meta_colon_spec [of "meta_scan ascii_env (u ''a:'')" ascii_env 58 "u ''b:c''"]
      meta_colon_spec [of "meta_scan ascii_env (u ''a:b'')" ascii_env 32 "u ''b:c''"]
      a
    unfolding b by auto
qed

text \<open>The three tokens of the spec's example.\<close>

lemma parse_meta_examples:
  "parse_meta U (u ''foo'') = Inr [(u ''foo'', Marker)]
 \<and> parse_meta U (u ''foo:5'') = Inr [(u ''foo'', Num (FFinite 5))]
 \<and> parse_meta U (u ''Foo'')
     = Inl (ValueError ''Invalid metadata - tag must start with lowercase letter'')"
  by (simp add: meta_eval scalar_eval)

text \<open>Every key of a mapping that the parser returns matches the tag-name pattern.\<close>

lemma keys_dict_set_subset: "fst ` set (dict_set d k v) \<subseteq> insert k (fst ` set d)"
  by (induction d) (force split: if_splits)+

lemma meta_convert_keys:
  "meta_convert U its meta = Inr m \<Longrightarrow> \<forall>k \<in> fst ` set meta. re_match TAG_RE k \<noteq> None \<Longrightarrow>
   \<forall>k \<in> fst ` set m. re_match TAG_RE k \<noteq> None"
proof (induction U its meta rule: meta_convert.induct)
  case (1 U meta)
  then show ?case by simp
next
  case (2 U key val its meta)
  from "2.prems"(1) obtain v where ok: "re_match TAG_RE key \<noteq> None"
    and v: "parse_scalar U val = Inr v"
    and r: "meta_convert U its (dict_set meta key v) = Inr m"
    by (auto split: if_splits sum.splits)
  have "\<forall>k \<in> fst ` set (dict_set meta key v). re_match TAG_RE k \<noteq> None"
    using keys_dict_set_subset[of meta key v] ok "2.prems"(2) by blast
  with "2.IH" ok v r show ?case by simp
next
  case (3 U item its meta)
  from "3.prems"(1) have ok: "re_match TAG_RE item \<noteq> None"
    and r: "meta_convert U its (dict_set meta item Marker) = Inr m"
    by (auto split: if_splits)
  have "\<forall>k \<in> fst ` set (dict_set meta item Marker). re_match TAG_RE k \<noteq> None"
    using keys_dict_set_subset[of meta item Marker] ok "3.prems"(2) by blast
  with "3.IH" ok r show ?case by simp
qed

lemma parse_meta_keys:
  "parse_meta U meta_str = Inr m \<Longrightarrow> \<forall>k \<in> fst ` set m. re_match TAG_RE k \<noteq> None"
  using meta_convert_keys[of U "meta_tokens U meta_str" "[]" m]
  by (auto simp: parse_meta_def split: list.splits if_splits)

text \<open>
  Claim C5 holds for the tokens \<open>foo\<close>, \<open>foo:5\<close> and \<open>Foo\<close>, but not for every tag name:
  a key whose value is empty is not flushed at the following space. In \<open>foo: Bar\<close> the
  token \<open>Bar\<close>, which is no tag name, becomes the value of \<open>foo\<close>, and in \<open>a Foo:\<close> the
  key \<open>Foo\<close> is dropped; neither raises, and a grid with such a first line is returned
  by the fast path.
\<close>

theorem parse_meta_dangling_key:
  \<open>re_match TAG_RE (u ''Bar'') = None
 \<and> parse_meta ascii_env (u ''foo: Bar'') = Inr [(u ''foo'', Str (u ''Bar''))]
 \<and> re_match TAG_RE (u ''Foo'') = None
 \<and> parse_meta ascii_env (u ''a Foo:'') = Inr [(u ''a'', Marker)]
 \<and> parse_grid_fast ascii_env (u ''ver:"3.0" foo: Bar'' @ [10] @ u ''x'' @ [10] @ u ''1'') =
     Inr \<lparr> g_version = u ''3.0'', g_metadata = [(u ''foo'', Str (u ''Bar''))],
           g_columns = [(u ''x'', [])], g_rows = [[(u ''x'', Num (FFinite 1))]] \<rparr>\<close>
proof (intro conjI)
  show "re_match TAG_RE (u ''Bar'') = None"
    by (simp add: scalar_eval)
  show "parse_meta ascii_env (u ''foo: Bar'') = Inr [(u ''foo'', Str (u ''Bar''))]"
    by (simp add: meta_eval scalar_eval)
  show "re_match TAG_RE (u ''Foo'') = None"
    by (simp add: scalar_eval)
  show "parse_meta ascii_env (u ''a Foo:'') = Inr [(u ''a'', Marker)]"
    by (simp add: meta_eval scalar_eval)
  show \<open>parse_grid_fast ascii_env (u ''ver:"3.0" foo: Bar'' @ [10] @ u ''x'' @ [10] @ u ''1'') =
     Inr \<lparr> g_version = u ''3.0'', g_metadata = [(u ''foo'', Str (u ''Bar''))],
           g_columns = [(u ''x'', [])], g_rows = [[(u ''x'', Num (FFinite 1))]] \<rparr>\<close>
    by (simp add: grid_eval meta_eval scalar_eval csv_eval)
qed

theorem parse_meta_dangling_key_witness:
  "parse_meta ascii_env (u ''foo: Bar'') = Inr [(u ''foo'', Str (u ''Bar''))]
 \<and> parse_meta ascii_env (u ''a Foo:'') = Inr [(u ''a'', Marker)]"
  using parse_meta_dangling_key by simp

section \<open>Properties of the grid assembler and the dispatcher\<close>

lemma startswith_iff: "startswith s p \<longleftrightarrow> (\<exists>b. s = p @ b)"
  by (induction s p rule: startswith.induct) auto

lemma py_in_iff: "py_in p s \<longleftrightarrow> (\<exists>a b. s = a @ p @ b)"
proof (induction s)
  case Nil
  then show ?case by auto
next
  case (Cons x xs)
  show ?case
  proof
    assume "py_in p (x # xs)"
    then consider "startswith (x # xs) p" | "py_in p xs" by auto
    then show "\<exists>a b. x # xs = a @ p @ b"
    proof cases
      case 1
      then obtain b where "x # xs = p @ b" by (auto simp: startswith_iff)
      then have "x # xs = [] @ p @ b" by simp
      then show ?thesis by blast
    next
      case 2
      then obtain a b where "xs = a @ p @ b" using Cons.IH by auto
      then have "x # xs = (x # a) @ p @ b" by simp
      then show ?thesis by blast
    qed
  next
    assume "\<exists>a b. x # xs = a @ p @ b"
    then obtain a b where ab: "x # xs = a @ p @ b" by auto
    show "py_in p (x # xs)"
    proof (cases a)
      case Nil
      with ab have "startswith (x # xs) p" by (auto simp: startswith_iff)
      then show ?thesis by simp
    next
      case (Cons y ys)
      with ab have "xs = ys @ p @ b" by simp
      then have "py_in p xs" using Cons.IH by auto
      then show ?thesis by simp
    qed
  qed
qed

text \<open>
  Claim C3. A text that contains \<open><<\<close> or \<open>{\<close> anywhere, or \<open>[\<close> among its first 200
  characters, is rejected by the fast path with the error of its first check, before any
  line is read or any grid is built, and the dispatcher returns what the fallback parser
  returns.
\<close>

theorem complex_text_rejected:
  assumes "(\<exists>a b. t = a @ u ''<<'' @ b) \<or> 123 \<in> set t \<or> 91 \<in> set (take 200 t)"
  shows "parse_grid_fast U t = Inl (ValueError ''Complex grid - use slow parser'')
       \<and> parse_grid U parse_grid_slow t parseAll = parse_grid_slow t parseAll"
proof -
  have "complex_checks U t = Some (ValueError ''Complex grid - use slow parser'')"
    using assms by (auto simp: complex_checks_def py_in_iff min_def)
  then have "parse_grid_fast U t = Inl (ValueError ''Complex grid - use slow parser'')"
    by (simp add: parse_grid_fast_def)
  then show ?thesis by (simp add: parse_grid_def)
qed

theorem complex_text_rejected_witness:
  "123 \<in> set (u ''ver:{'')
 \<and> parse_grid_fast ascii_env (u ''ver:{'') = Inl (ValueError ''Complex grid - use slow parser'')
 \<and> parse_grid ascii_env (\<lambda>t p. Inr example_grid) (u ''ver:{'') True = Inr example_grid"
proof -
  have h: "123 \<in> set (u ''ver:{'')" by (simp add: u_def)
  then have "(\<exists>a b. u ''ver:{'' = a @ u ''<<'' @ b) \<or> 123 \<in> set (u ''ver:{'')
      \<or> 91 \<in> set (take 200 (u ''ver:{''))"
    by blast
  from complex_text_rejected[OF this, of ascii_env "\<lambda>t p. Inr example_grid" True] h
  show ?thesis by simp
qed

lemma map_of_dict_set: "map_of (dict_set d k v) = (map_of d)(k \<mapsto> v)"
  by (induction d) auto

lemma keys_dict_set_in: "k \<in> fst ` set d \<Longrightarrow> map fst (dict_set d k v) = map fst d"
  by (induction d) force+

lemma keys_dict_set_notin: "k \<notin> fst ` set d \<Longrightarrow> map fst (dict_set d k v) = map fst d @ [k]"
  by (induction d) force+

lemma keys_dict_set:
  "map fst (dict_set d k v) = (if k \<in> set (map fst d) then map fst d else map fst d @ [k])"
  by (simp add: keys_dict_set_in keys_dict_set_notin)

lemma pad_values_eq: "pad_values vals n = vals @ replicate (n - length vals) []"
proof (induction vals n rule: pad_values.induct)
  case (1 vals n)
  show ?case
  proof (cases "length vals < n")
    case True
    then have "n - length vals = Suc (n - Suc (length vals))" by simp
    with True "1.IH" show ?thesis
      by (subst pad_values.simps) (simp add: replicate_app_Cons_same)
  next
    case False
    then show ?thesis by (subst pad_values.simps) simp
  qed
qed

lemma parse_scalar_empty: "parse_scalar U [] = Inr Null"
  by (simp add: parse_scalar_def py_strip_def)

lemma remdups_snoc: "remdups (xs @ [n]) = filter (\<lambda>x. x \<noteq> n) (remdups xs) @ [n]"
  by (induction xs) auto

lemma first_occ_Cons: "first_occ (n # ns) = n # filter (\<lambda>x. x \<noteq> n) (first_occ ns)"
  by (simp add: first_occ_def remdups_snoc rev_filter)

lemma first_occ_Nil: "first_occ [] = []"
  by (simp add: first_occ_def)

lemma first_occ_distinct: "distinct xs \<Longrightarrow> first_occ xs = xs"
  by (simp add: first_occ_def distinct_remdups_id)

lemma fill_row_keys:
  "fill_row U names i vals row = Inr row' \<Longrightarrow>
   map fst row' = map fst row @ filter (\<lambda>n. n \<notin> set (map fst row)) (first_occ names)"
proof (induction names arbitrary: i row)
  case Nil
  then show ?case by (simp add: first_occ_Nil)
next
  case (Cons n ns)
  from Cons.prems obtain v where
    r: "fill_row U ns (i + 1) vals (dict_set row n v) = Inr row'"
    by (auto split: if_splits sum.splits)
  have "map fst row' = map fst (dict_set row n v)
      @ filter (\<lambda>x. x \<notin> set (map fst (dict_set row n v))) (first_occ ns)"
    using r by (rule Cons.IH)
  then show ?case
    by (auto simp: keys_dict_set first_occ_Cons intro!: filter_cong)
qed

lemma fill_row_frame:
  "fill_row U names i vals row = Inr row' \<Longrightarrow> k \<notin> set names \<Longrightarrow> map_of row' k = map_of row k"
proof (induction names arbitrary: i row)
  case Nil
  then show ?case by simp
next
  case (Cons n ns)
  from Cons.prems obtain v where
    r: "fill_row U ns (i + 1) vals (dict_set row n v) = Inr row'"
    by (auto split: if_splits sum.splits)
  from Cons.prems have "k \<notin> set ns" "k \<noteq> n" by auto
  with Cons.IH[OF r] show ?case by (simp add: map_of_dict_set)
qed

lemma fill_row_cells:
  "fill_row U names i vals row = Inr row' \<Longrightarrow> j < length names \<Longrightarrow>
   names ! j \<notin> set (drop (Suc j) names) \<Longrightarrow>
   \<exists>v. map_of row' (names ! j) = Some v \<and>
       (if i + j < length vals then parse_scalar U (vals ! (i + j)) = Inr v else v = Null)"
proof (induction names arbitrary: i j row)
  case Nil
  then show ?case by simp
next
  case (Cons n ns)
  from Cons.prems(1) obtain v where
    r: "fill_row U ns (i + 1) vals (dict_set row n v) = Inr row'"
    and v: "if i < length vals then parse_scalar U (vals ! i) = Inr v else v = Null"
    by (auto split: if_splits sum.splits)
  show ?case
  proof (cases j)
    case 0
    with Cons.prems(3) have "n \<notin> set ns" by simp
    with fill_row_frame[OF r] have "map_of row' n = Some v" by (simp add: map_of_dict_set)
    with v 0 show ?thesis by auto
  next
    case (Suc j')
    with Cons.prems have "j' < length ns" "ns ! j' \<notin> set (drop (Suc j') ns)" by auto
    from Cons.IH[OF r this] Suc show ?thesis by (auto split: if_splits)
  qed
qed

lemma parse_row_fill:
  "parse_row U names line = Inr row \<Longrightarrow>
   fill_row U names 0 (split_csv_values U line @ replicate (length names - length (split_csv_values U line)) []) [] = Inr row"
  by (auto simp: parse_row_def pad_values_eq split: if_splits)

lemma parse_row_keys:
  assumes "parse_row U names line = Inr row"
  shows "map fst row = first_occ names"
  using fill_row_keys[OF parse_row_fill[OF assms]] by simp

lemma parse_row_cells:
  assumes "parse_row U names line = Inr row" and "j < length names"
    and "names ! j \<notin> set (drop (Suc j) names)"
  shows "\<exists>v. dict_get row (names ! j) = Some v \<and>
       (if j < length (split_csv_values U line)
        then parse_scalar U (split_csv_values U line ! j) = Inr v else v = Null)"
proof -
  define vals where "vals = split_csv_values U line"
  define padded where "padded = vals @ replicate (length names - length vals) []"
  have len: "j < length padded" using assms(2) by (simp add: padded_def)
  from fill_row_cells[OF parse_row_fill[OF assms(1)] assms(2,3)]
  obtain v where v: "map_of row (names ! j) = Some v" "parse_scalar U (padded ! j) = Inr v"
    using len by (auto simp: padded_def vals_def)
  show ?thesis
  proof (cases "j < length vals")
    case True
    then have "padded ! j = vals ! j" by (simp add: padded_def nth_append)
    with v True show ?thesis by (simp add: dict_get_def vals_def)
  next
    case False
    then have "padded ! j = []" using len by (simp add: padded_def nth_append)
    with v have "v = Null" by (simp add: parse_scalar_empty)
    with v False show ?thesis by (simp add: dict_get_def vals_def)
  qed
qed

lemma parse_rows_result:
  "parse_rows U names ls g = Inr g' \<Longrightarrow>
   g_columns g' = g_columns g \<and>
   (\<exists>rows. g_rows g' = g_rows g @ rows \<and>
      list_all2 (\<lambda>l row. parse_row U names l = Inr row)
        (filter (\<lambda>l. l \<noteq> []) (map (py_strip U) ls)) rows)"
proof (induction ls arbitrary: g)
  case Nil
  then show ?case by simp
next
  case (Cons l ls)
  show ?case
  proof (cases "py_strip U l = []")
    case True
    with Cons.prems have "parse_rows U names ls g = Inr g'" by simp
    from Cons.IH[OF this] True show ?thesis by simp
  next
    case False
    with Cons.prems obtain row where row: "parse_row U names (py_strip U l) = Inr row"
      and r: "parse_rows U names ls (g\<lparr>g_rows := g_rows g @ [row]\<rparr>) = Inr g'"
      by (auto split: sum.splits)
    from Cons.IH[OF r] obtain rows where
      "g_columns g' = g_columns g" "g_rows g' = (g_rows g @ [row]) @ rows"
      "list_all2 (\<lambda>l row. parse_row U names l = Inr row)
        (filter (\<lambda>l. l \<noteq> []) (map (py_strip U) ls)) rows"
      by auto
    with row False show ?thesis
      by (intro conjI exI[of _ "row # rows"]) simp_all
  qed
qed

lemma parse_grid_fast_rows:
  assumes "parse_grid_fast U t = Inr g"
  shows "list_all2 (\<lambda>l row. parse_row U (col_names g) l = Inr row) (data_lines U t) (g_rows g)"
proof -
  note d = parse_grid_fast_def
  from assms have c: "complex_checks U t = None"
    by (cases "complex_checks U t") (simp_all add: d)
  from assms c obtain line1 rest_lines where l1: "py_split 10 t = line1 # rest_lines"
    by (cases "py_split 10 t") (simp_all add: d)
  from assms c l1 obtain ver_match where m: "re_match VERSION_RE line1 = Some ver_match"
    by (cases "re_match VERSION_RE line1") (simp_all add: d)
  from assms c l1 m obtain ver where v: "group_str ver_match 1 = Inr ver"
    by (cases "group_str ver_match 1") (simp_all add: d)
  from assms c l1 m v have vok: "version_ok U ver"
    by (cases "version_ok U ver") (simp_all add: d)
  from assms c l1 m v vok obtain grid_meta where
    gm: "parse_meta U (py_strip U (drop (snd ver_match) line1)) = Inr grid_meta"
    by (cases "parse_meta U (py_strip U (drop (snd ver_match) line1))") (simp_all add: d)
  from assms c l1 m v vok gm obtain col_line row_lines where
    l2: "rest_lines = col_line # row_lines"
    by (cases rest_lines) (simp_all add: d)
  from assms c l1 m v vok gm l2 have up: "\<not> re_search (UPPER_TAG_RE U) col_line"
    by (cases "re_search (UPPER_TAG_RE U) col_line") (simp_all add: d)
  from assms c l1 m v vok gm l2 up obtain columns where
    cols: "parse_columns U (split_csv_values U col_line) [] = Inr columns"
    by (cases "parse_columns U (split_csv_values U col_line) []") (simp_all add: d)
  from assms c l1 m v vok gm l2 up cols have
    r: "parse_rows U (map fst columns) row_lines
         \<lparr> g_version = ver, g_metadata = grid_meta, g_columns = columns, g_rows = [] \<rparr> = Inr g"
    by (simp add: d)
  from parse_rows_result[OF r] l1 l2 show ?thesis
    by (auto simp: col_names_def data_lines_def)
qed

text \<open>
  Claim C2. Whenever the fast path fails, with whatever error, the dispatcher returns
  exactly what the fallback parser returns on the original text and the original
  \<open>parseAll\<close>: the error of the fast path and the rows it had built are gone. A grid of
  the fast path is returned only when the fast path has finished. In particular a row
  line with an escaped backtick or a malformed value, however many rows stand before it,
  sends the whole text to the fallback parser.
\<close>

theorem parse_grid_fallback:
  "(parse_grid_fast U t = Inl e \<longrightarrow>
      parse_grid U parse_grid_slow t parseAll = parse_grid_slow t parseAll)
 \<and> (parse_grid_fast U t = Inr g \<longrightarrow> parse_grid U parse_grid_slow t parseAll = Inr g)
 \<and> (l \<in> set (data_lines U t)
      \<and> (py_in [92, 96] l \<or> \<not> list_all (value_ok U) (split_csv_values U l)) \<longrightarrow>
      parse_grid U parse_grid_slow t parseAll = parse_grid_slow t parseAll)"
proof (intro conjI impI)
  show "parse_grid U parse_grid_slow t parseAll = parse_grid_slow t parseAll"
    if "parse_grid_fast U t = Inl e"
    using that by (simp add: parse_grid_def)
  show "parse_grid U parse_grid_slow t parseAll = Inr g" if "parse_grid_fast U t = Inr g"
    using that by (simp add: parse_grid_def)
  show "parse_grid U parse_grid_slow t parseAll = parse_grid_slow t parseAll"
    if bad: "l \<in> set (data_lines U t)
      \<and> (py_in [92, 96] l \<or> \<not> list_all (value_ok U) (split_csv_values U l))"
  proof (cases "parse_grid_fast U t")
    case (Inl e')
    then show ?thesis by (simp add: parse_grid_def)
  next
    case (Inr g')
    from bad have fails: "\<forall>row. parse_row U (col_names g') l \<noteq> Inr row"
      by (auto simp: parse_row_def)
    from parse_grid_fast_rows[OF Inr] bad obtain row where
      "parse_row U (col_names g') l = Inr row"
      by (auto simp: list_all2_conv_all_nth in_set_conv_nth)
    with fails show ?thesis by blast
  qed
qed

theorem parse_grid_fallback_witness:
  \<open>parse_grid_fast ascii_env (u ''ver:{'') = Inl (ValueError ''Complex grid - use slow parser'')
 \<and> parse_grid ascii_env (\<lambda>t p. Inr example_grid) (u ''ver:{'') True = Inr example_grid
 \<and> parse_grid_fast ascii_env (u ''ver:"3.0"'' @ [10] @ u ''a'' @ [10] @ u ''xyz'')
     = Inl (ValueError ''Malformed value in row'')
 \<and> parse_grid ascii_env (\<lambda>t p. Inr example_grid)
       (u ''ver:"3.0"'' @ [10] @ u ''a'' @ [10] @ u ''xyz'') True = Inr example_grid
 \<and> parse_grid_fast ascii_env (u ''ver:"3.0"'' @ [10] @ u ''a'' @ [10] @ u ''C(a,b)'')
     = Inl (ValueError ''could not convert string to float'')
 \<and> parse_grid ascii_env (\<lambda>t p. Inr example_grid)
       (u ''ver:"3.0"'' @ [10] @ u ''a'' @ [10] @ u ''C(a,b)'') True = Inr example_grid
 \<and> parse_grid_fast ascii_env example_grid_text = Inr example_grid
 \<and> parse_grid ascii_env (\<lambda>t p. Inl (LibraryError ''zincparser'')) example_grid_text True
     = Inr example_grid
 \<and> u ''xyz'' \<in> set (data_lines ascii_env (example_grid_text @ [10] @ u ''xyz''))
 \<and> \<not> list_all (value_ok ascii_env) (split_csv_values ascii_env (u ''xyz''))
 \<and> parse_grid ascii_env (\<lambda>t p. Inr example_grid) (example_grid_text @ [10] @ u ''xyz'') True
     = Inr example_grid\<close>
proof -
  have a: "parse_grid_fast ascii_env (u ''ver:{'') = Inl (ValueError ''Complex grid - use slow parser'')"
    by (simp add: grid_eval u_def)
  have b: \<open>parse_grid_fast ascii_env (u ''ver:"3.0"'' @ [10] @ u ''a'' @ [10] @ u ''xyz'')
     = Inl (ValueError ''Malformed value in row'')\<close>
    by (simp add: grid_eval meta_eval scalar_eval csv_eval)
  have c: \<open>parse_grid_fast ascii_env (u ''ver:"3.0"'' @ [10] @ u ''a'' @ [10] @ u ''C(a,b)'')
     = Inl (ValueError ''could not convert string to float'')\<close>
    by (simp add: grid_eval meta_eval scalar_eval csv_eval)
  have d: "parse_grid_fast ascii_env example_grid_text = Inr example_grid"
    unfolding example_grid_text_def example_grid_def
    by (simp add: grid_eval meta_eval scalar_eval csv_eval)
  have e: "u ''xyz'' \<in> set (data_lines ascii_env (example_grid_text @ [10] @ u ''xyz''))"
    "\<not> list_all (value_ok ascii_env) (split_csv_values ascii_env (u ''xyz''))"
    unfolding example_grid_text_def
    by (simp_all add: data_lines_def value_ok_def scalar_eval csv_eval)
  show ?thesis
    using a b c d e
      parse_grid_fallback [of ascii_env "example_grid_text @ [10] @ u ''xyz''" _
        "\<lambda>t p. Inr example_grid" True _ "u ''xyz''"]
      parse_grid_fallback [of ascii_env "u ''ver:{''" _ "\<lambda>t p. Inr example_grid" True]
      parse_grid_fallback [of ascii_env \<open>u ''ver:"3.0"'' @ [10] @ u ''a'' @ [10] @ u ''xyz''\<close> _
        "\<lambda>t p. Inr example_grid" True]
      parse_grid_fallback [of ascii_env \<open>u ''ver:"3.0"'' @ [10] @ u ''a'' @ [10] @ u ''C(a,b)''\<close> _
        "\<lambda>t p. Inr example_grid" True]
      parse_grid_fallback [of ascii_env example_grid_text _
        "\<lambda>t p. Inl (LibraryError ''zincparser'')" True example_grid]
    by simp
qed

text \<open>
  Claim C6. In a grid that the fast path returns, the rows are the non-blank row lines in
  source order, one row per line. The keys of a row are the declared column names in
  declared order (each name once, at its first occurrence; exactly the declared list when
  the names are distinct), so every declared column has an entry. The entry of a column
  (the last one of its name) is the decoded field at the column's position when the line
  has a field there, and Null when the line has fewer fields; fields beyond the last
  column do not appear in the row.
\<close>

theorem rows_follow_columns:
  assumes "parse_grid_fast U t = Inr g"
  shows "list_all2 (\<lambda>line row.
            map fst row = rev (remdups (rev (col_names g)))
          \<and> (\<forall>j < length (col_names g). col_names g ! j \<notin> set (drop (Suc j) (col_names g)) \<longrightarrow>
               (\<exists>v. dict_get row (col_names g ! j) = Some v \<and>
                  (if j < length (split_csv_values U line)
                   then parse_scalar U (split_csv_values U line ! j) = Inr v else v = Null))))
          (data_lines U t) (g_rows g)
       \<and> (\<forall>row \<in> set (g_rows g). \<forall>c \<in> set (col_names g). dict_get row c \<noteq> None)
       \<and> (distinct (col_names g) \<longrightarrow> (\<forall>row \<in> set (g_rows g). map fst row = col_names g))"
proof -
  have rows: "list_all2 (\<lambda>l row. parse_row U (col_names g) l = Inr row) (data_lines U t) (g_rows g)"
    using assms by (rule parse_grid_fast_rows)
  have 1: "list_all2 (\<lambda>line row.
            map fst row = rev (remdups (rev (col_names g)))
          \<and> (\<forall>j < length (col_names g). col_names g ! j \<notin> set (drop (Suc j) (col_names g)) \<longrightarrow>
               (\<exists>v. dict_get row (col_names g ! j) = Some v \<and>
                  (if j < length (split_csv_values U line)
                   then parse_scalar U (split_csv_values U line ! j) = Inr v else v = Null))))
          (data_lines U t) (g_rows g)"
    using rows
  proof (rule list_all2_mono)
    fix line row
    assume pr: "parse_row U (col_names g) line = Inr row"
    show "map fst row = rev (remdups (rev (col_names g)))
          \<and> (\<forall>j < length (col_names g). col_names g ! j \<notin> set (drop (Suc j) (col_names g)) \<longrightarrow>
               (\<exists>v. dict_get row (col_names g ! j) = Some v \<and>
                  (if j < length (split_csv_values U line)
                   then parse_scalar U (split_csv_values U line ! j) = Inr v else v = Null)))"
      using parse_row_keys[OF pr] parse_row_cells[OF pr] by (simp add: first_occ_def)
  qed
  have keys: "map fst row = first_occ (col_names g)" if "row \<in> set (g_rows g)" for row
  proof -
    from that rows obtain line where "parse_row U (col_names g) line = Inr row"
      by (auto simp: list_all2_conv_all_nth in_set_conv_nth)
    then show ?thesis by (rule parse_row_keys)
  qed
  have 2: "\<forall>row \<in> set (g_rows g). \<forall>c \<in> set (col_names g). dict_get row c \<noteq> None"
  proof (intro ballI)
    fix row c
    assume "row \<in> set (g_rows g)" and c: "c \<in> set (col_names g)"
    then have "set (map fst row) = set (col_names g)"
      by (simp add: keys first_occ_def)
    with c have "c \<in> fst ` set row" by auto
    then show "dict_get row c \<noteq> None"
      by (simp add: dict_get_def map_of_eq_None_iff)
  qed
  have 3: "distinct (col_names g) \<longrightarrow> (\<forall>row \<in> set (g_rows g). map fst row = col_names g)"
    by (auto simp: keys first_occ_distinct)
  from 1 2 3 show ?thesis by blast
qed

theorem rows_follow_columns_witness:
  "parse_grid_fast ascii_env example_grid_text = Inr example_grid
 \<and> g_rows example_grid =
     [[(u ''a'', Num (FFinite 1)), (u ''b'', Num (FFinite 2)), (u ''c'', Null), (u ''d'', Null)]]
 \<and> list_all (\<lambda>row. map fst row = [u ''a'', u ''b'', u ''c'', u ''d'']) (g_rows example_grid)
 \<and> length (g_rows example_grid) = length (data_lines ascii_env example_grid_text)"
proof -
  have h: "parse_grid_fast ascii_env example_grid_text = Inr example_grid"
    unfolding example_grid_text_def example_grid_def
    by (simp add: grid_eval meta_eval scalar_eval csv_eval)
  have d: "distinct (col_names example_grid)"
    "col_names example_grid = [u ''a'', u ''b'', u ''c'', u ''d'']"
    by (simp_all add: example_grid_def col_names_def u_def)
  from rows_follow_columns[OF h] d h show ?thesis
    by (auto simp: list_all_iff example_grid_def dest: list_all2_lengthD)
qed

end
